theory Spec2Isabelle
  imports Main
begin

section \<open>JavaScript strings and numbers\<close>

text \<open>
  A JavaScript string is modelled as a \<^typ>\<open>string\<close>: a list of code units in the range
  \<open>0x00\<close> to \<open>0xFF\<close>. That range holds every character the program's literals use
  (ASCII and the non-breaking space \<open>0xA0\<close>). The character classes and case maps below
  are those of ECMAScript restricted to this range.
\<close>

definition isWhitespace :: "char \<Rightarrow> bool" where
  \<comment> \<open>the regular expression class \<open>\s\<close>, which is also what \<open>trim\<close> strips\<close>
  "isWhitespace c = (of_char c \<in> {9, 10, 11, 12, 13, 32, 160 :: nat})"

definition isLineTerminator :: "char \<Rightarrow> bool" where
  \<comment> \<open>the characters that \<open>.\<close> does not match\<close>
  "isLineTerminator c = (of_char c \<in> {10, 13 :: nat})"

definition isDigit :: "char \<Rightarrow> bool" where
  \<comment> \<open>the regular expression class \<open>\d\<close>\<close>
  "isDigit c = (48 \<le> (of_char c :: nat) \<and> (of_char c :: nat) \<le> 57)"

definition toLowerChar :: "char \<Rightarrow> char" where
  "toLowerChar c =
     (let n = (of_char c :: nat)
      in if (65 \<le> n \<and> n \<le> 90) \<or> (192 \<le> n \<and> n \<le> 222 \<and> n \<noteq> 215)
         then char_of (n + 32) else c)"

definition toLowerCase :: "string \<Rightarrow> string" where
  "toLowerCase s = map toLowerChar s"

definition toUpperChars :: "char \<Rightarrow> string" where
  \<comment> \<open>\<open>0xDF\<close> (sharp s) upper-cases to two code units. The upper-case forms of \<open>0xB5\<close> and
      \<open>0xFF\<close> lie outside the range; they are kept, which no comparison with an ASCII
      literal can tell apart.\<close>
  "toUpperChars c =
     (let n = (of_char c :: nat)
      in if n = 223 then ''SS''
         else if (97 \<le> n \<and> n \<le> 122) \<or> (224 \<le> n \<and> n \<le> 254 \<and> n \<noteq> 247)
         then [char_of (n - 32)] else [c])"

definition toUpperCase :: "string \<Rightarrow> string" where
  "toUpperCase s = concat (map toUpperChars s)"

definition trim :: "string \<Rightarrow> string" where
  "trim s = rev (dropWhile isWhitespace (rev (dropWhile isWhitespace s)))"

definition startsWith :: "string \<Rightarrow> string \<Rightarrow> bool" where
  "startsWith s k = (take (length k) s = k)"

fun includesStr :: "string \<Rightarrow> string \<Rightarrow> bool" where
  "includesStr [] k = (k = [])"
| "includesStr (c # cs) k = (startsWith (c # cs) k \<or> includesStr cs k)"

fun splitChar :: "char \<Rightarrow> string \<Rightarrow> string list" where
  \<comment> \<open>\<open>s.split(sep)\<close> for a one-character separator; the result is never empty\<close>
  "splitChar sep [] = [[]]"
| "splitChar sep (c # cs) =
     (if c = sep then [] # splitChar sep cs
      else (case splitChar sep cs of
              [] \<Rightarrow> [[c]]
            | w # ws \<Rightarrow> (c # w) # ws))"

fun joinWith :: "string \<Rightarrow> string list \<Rightarrow> string" where
  "joinWith sep [] = []"
| "joinWith sep [w] = w"
| "joinWith sep (w # v # ws) = w @ sep @ joinWith sep (v # ws)"

fun replaceWsRuns :: "bool \<Rightarrow> string \<Rightarrow> string" where
  \<comment> \<open>\<open>s.replace(/\s+/g, ' ')\<close>; the flag says that the previous character was whitespace\<close>
  "replaceWsRuns inRun [] = []"
| "replaceWsRuns inRun (c # cs) =
     (if isWhitespace c
      then (if inRun then replaceWsRuns True cs else CHR '' '' # replaceWsRuns True cs)
      else c # replaceWsRuns False cs)"

definition replaceNbsp :: "string \<Rightarrow> string" where
  \<comment> \<open>the global replacement of the non-breaking space by a space\<close>
  "replaceNbsp s = map (\<lambda>c. if c = CHR 0xA0 then CHR '' '' else c) s"

definition padStart2 :: "string \<Rightarrow> string" where
  \<comment> \<open>\<open>s.padStart(2, '0')\<close>\<close>
  "padStart2 s = replicate (2 - length s) (CHR ''0'') @ s"

fun showNat :: "nat \<Rightarrow> string" where
  "showNat n =
     (if n < 10 then [char_of (48 + n)]
      else showNat (n div 10) @ [char_of (48 + n mod 10)])"

declare showNat.simps [simp del]

definition digitsValue :: "string \<Rightarrow> nat" where
  "digitsValue ds = foldl (\<lambda>acc c. 10 * acc + (of_char c - 48)) 0 ds"

text \<open>
  Numbers are IEEE doubles in the source. The model computes \<open>Number\<close> and \<open>parseInt\<close> on
  plain decimal digit strings of at most 15 digits after their leading zeros: their values
  are below \<open>10^15\<close>, where the double is the integer itself and prints as its decimal
  digits. On any other string (a sign, a fraction, an exponent, a radix prefix, text that
  is not a number, a digit string of a greater value) the printed result is taken from
  the host, as a parameter.
\<close>

definition safeDigits :: "string \<Rightarrow> bool" where
  \<comment> \<open>at most 15 digits follow the leading zeros\<close>
  "safeDigits ds = (length (dropWhile (\<lambda>c. c = CHR ''0'') ds) \<le> 15)"

record js_host =
  numberString :: "string \<Rightarrow> string"    \<comment> \<open>\<open>Number(s).toString()\<close> outside the fragment\<close>
  parseIntString :: "string \<Rightarrow> string"  \<comment> \<open>\<open>parseInt(s).toString()\<close> outside the fragment\<close>

definition numberToString :: "js_host \<Rightarrow> string \<Rightarrow> string" where
  \<comment> \<open>\<open>Number(s).toString()\<close>\<close>
  "numberToString J s =
     (let t = trim s
      in if list_all isDigit t \<and> safeDigits t
         then showNat (digitsValue t) else numberString J s)"

definition parseIntDigits :: "string \<Rightarrow> nat option" where
  \<comment> \<open>\<open>parseInt(s)\<close> where it is a safe integer read from a decimal digit prefix\<close>
  "parseIntDigits s =
     (let t = dropWhile isWhitespace s; ds = takeWhile isDigit t
      in if ds \<noteq> [] \<and> \<not> startsWith (toLowerCase t) ''0x'' \<and> safeDigits ds
         then Some (digitsValue ds) else None)"

definition parseIntToString :: "js_host \<Rightarrow> string \<Rightarrow> string" where
  \<comment> \<open>\<open>parseInt(s).toString()\<close>\<close>
  "parseIntToString J s =
     (case parseIntDigits s of Some n \<Rightarrow> showNat n | None \<Rightarrow> parseIntString J s)"

section \<open>Helpers of the Site B actions\<close>

definition normalize_str :: "string \<Rightarrow> string" where
  \<comment> \<open>the source's \<open>normalize\<close>\<close>
  "normalize_str s = toLowerCase (trim (replaceNbsp (replaceWsRuns False s)))"

definition normalizeDateToISO :: "js_host \<Rightarrow> string \<Rightarrow> string" where
  "normalizeDateToISO J date =
     (case splitChar (CHR ''/'') date of
        [m, d, y] \<Rightarrow>
          numberToString J y @ ''-'' @ padStart2 (numberToString J m) @ ''-''
            @ padStart2 (numberToString J d)
      | _ \<Rightarrow> date)"

definition normalizeVisitKey :: "js_host \<Rightarrow> string \<Rightarrow> string \<Rightarrow> string" where
  "normalizeVisitKey J taskName visitDate =
     normalize_str taskName @ ''|'' @ normalizeDateToISO J visitDate"

definition normalizeDate :: "js_host \<Rightarrow> string \<Rightarrow> string" where
  "normalizeDate J dateStr =
     (case splitChar (CHR ''/'') dateStr of
        [month, day, year] \<Rightarrow>
          parseIntToString J month @ ''/'' @ parseIntToString J day @ ''/'' @ year
      | _ \<Rightarrow> dateStr)"


type_synonym time_match = "string \<times> string option \<times> string"

fun matchAmPm :: "string \<Rightarrow> string option" where
  \<comment> \<open>the group \<open>(AM|PM)\<close> under the flag \<open>i\<close>, at the start of the string\<close>
  "matchAmPm (a # m # rest) =
     (if toLowerChar a \<in> {CHR ''a'', CHR ''p''} \<and> toLowerChar m = CHR ''m''
      then Some [a, m] else None)"
| "matchAmPm _ = None"

definition matchTimeAt :: "string \<Rightarrow> time_match option" where
  \<comment> \<open>\<open>/(\d+)(?::(\d+))?\s*(AM|PM)/i\<close> anchored at the start of the string. Each greedy
      quantifier must take its whole run, since a digit or a whitespace character left
      over matches nothing that follows; so there is at most one match to find.\<close>
  "matchTimeAt s =
     (let hourStr = takeWhile isDigit s; r = dropWhile isDigit s
      in if hourStr = [] then None
         else (case r of
                 [] \<Rightarrow> None
               | c # r' \<Rightarrow>
                   if c = CHR '':'' \<and> takeWhile isDigit r' \<noteq> []
                   then (case matchAmPm (dropWhile isWhitespace (dropWhile isDigit r')) of
                           None \<Rightarrow> None
                         | Some ampm \<Rightarrow> Some (hourStr, Some (takeWhile isDigit r'), ampm))
                   else (case matchAmPm (dropWhile isWhitespace r) of
                           None \<Rightarrow> None
                         | Some ampm \<Rightarrow> Some (hourStr, None, ampm))))"

fun matchTime :: "string \<Rightarrow> time_match option" where
  \<comment> \<open>\<open>time.match(...)\<close>: the match at the leftmost position that has one\<close>
  "matchTime [] = None"
| "matchTime (c # cs) =
     (case matchTimeAt (c # cs) of
        Some m \<Rightarrow> Some m
      | None \<Rightarrow> matchTime cs)"

definition convertTo24h :: "js_host \<Rightarrow> string \<Rightarrow> string" where
  \<comment> \<open>An hour that is not a safe digit string is at least \<open>10^15\<close>: neither adjustment
      applies to it and its printed form is the host's.\<close>
  "convertTo24h J time =
     (case matchTime time of
        None \<Rightarrow> ''00:00''
      | Some (hourStr, minStr, ampm) \<Rightarrow>
          (let hourOut =
                 (case parseIntDigits hourStr of
                    None \<Rightarrow> parseIntString J hourStr
                  | Some hour \<Rightarrow>
                      (let hour1 = (if toUpperCase ampm = ''PM'' \<and> hour < 12 then hour + 12
                                    else hour);
                           hour2 = (if toUpperCase ampm = ''AM'' \<and> hour1 = 12 then 0
                                    else hour1)
                       in showNat hour2));
               minOut =
                 (case minStr of
                    None \<Rightarrow> ''0''
                  | Some ms \<Rightarrow> if ms = [] then ''0'' else parseIntToString J ms)
           in padStart2 hourOut @ '':'' @ padStart2 minOut))"

section \<open>Visit scanning in Site A\<close>

record visit =
  taskName :: string
  therapist :: string
  visitDate :: string
  targetDate :: string
  siteBVisitName :: string
  rowIndex :: nat
  needsAction :: bool
  actualVisitType :: string

definition SOC_NAMES :: "string list" where
  "SOC_NAMES = [''SOC'', ''SOC OASIS'', ''START OF CARE'', ''OASIS-E1 START'']"

definition DISCHARGE_NAMES :: "string list" where
  "DISCHARGE_NAMES = [''DISCHARGE'', ''DC OASIS'', ''OASIS-E1 DISCHARGE'', ''OASIS-E1 DC'']"

definition isSOC :: "string \<Rightarrow> bool" where
  "isSOC visitType = list_ex (\<lambda>k. includesStr (toUpperCase visitType) k) SOC_NAMES"

definition isDischarge :: "string \<Rightarrow> bool" where
  "isDischarge visitType =
     list_ex (\<lambda>k. includesStr (toUpperCase visitType) k) DISCHARGE_NAMES"

definition isDeleted :: "string \<Rightarrow> bool" where
  "isDeleted visitType = startsWith (toUpperCase (trim visitType)) ''DEL ''"

definition regexTestCI :: "string \<Rightarrow> string \<Rightarrow> bool" where
  \<comment> \<open>\<open>/pat/i.test(s)\<close> for a pattern of literal ASCII characters\<close>
  "regexTestCI pat s = includesStr (toLowerCase s) (toLowerCase pat)"

text \<open>
  A row of the therapy table, as the page gives it: the texts of the task cell, the number
  of attachment icons, the text of the visit date cell and the value of its input when
  there is one, the text of the target date cell, and the text content of the therapist
  cell.
\<close>

record task_row =
  taskTexts :: "string list"
  attachmentIcons :: nat
  visitDateDiv :: string
  visitDateInput :: "string option"
  targetDateDiv :: string
  therapistCell :: "string option"

definition mapTaskName :: "string \<Rightarrow> string \<times> string" where
  \<comment> \<open>the Site B visit name and the visit type that the scan derives from a task name\<close>
  "mapTaskName name =
     (if regexTestCI ''SOC OASIS'' name \<or> regexTestCI ''OASIS-E1 Start of Care'' name
        then (''SOC OASIS'', ''SOC'')
      else if regexTestCI ''INITIAL EVAL'' name then (''Evaluation'', ''Evaluation'')
      else if regexTestCI ''STANDARD'' name then (''Visit'', ''Standard'')
      else if regexTestCI ''REASSESSMENT'' name then (''Re-Evaluation'', ''Reassessment'')
      else if regexTestCI ''RECERT'' name then (''Recertification'', ''Recertification'')
      else if regexTestCI ''DISCHARGE'' name then (''Discharge'', ''Discharge'')
      else if regexTestCI ''OTA standard'' name then (''COTA visit'', ''COTA'')
      else (name, ''Other''))"

fun scanRows :: "nat \<Rightarrow> task_row list \<Rightarrow> visit list" where
  "scanRows i [] = []"
| "scanRows i (row # rows) =
     (let taskNameRaw = trim (replaceNbsp (joinWith '' '' (taskTexts row)));
          name = replaceWsRuns False taskNameRaw
      in if name = [] \<or> isSOC name \<or> isDischarge name \<or> isDeleted name
         then scanRows (Suc i) rows
         else
           (let date0 = trim (visitDateDiv row);
                date = (if date0 = []
                        then (case visitDateInput row of None \<Rightarrow> date0 | Some v \<Rightarrow> v)
                        else date0);
                isComplete = (date \<noteq> [] \<and> attachmentIcons row > 0)
            in if isComplete then scanRows (Suc i) rows
               else
                 \<lparr> taskName = name,
                   therapist = (case therapistCell row of None \<Rightarrow> [] | Some t \<Rightarrow> trim t),
                   visitDate = date,
                   targetDate = trim (targetDateDiv row),
                   siteBVisitName = fst (mapTaskName name),
                   rowIndex = i,
                   needsAction = True,
                   actualVisitType = snd (mapTaskName name) \<rparr>
                 # scanRows (Suc i) rows))"

definition getAllIncompleteVisits :: "task_row list \<Rightarrow> visit list" where
  "getAllIncompleteVisits rows = scanRows 0 rows"


section \<open>Visit type mapping\<close>

record VisitTypeMapping =
  siteBType :: string
  discipline :: "string option"

definition SITE_A_TO_SITE_B :: "(string \<times> VisitTypeMapping) list" where
  "SITE_A_TO_SITE_B =
     [(''pt visit'', \<lparr>siteBType = ''standard'', discipline = Some ''pt''\<rparr>),
      (''pta visit'', \<lparr>siteBType = ''standard'', discipline = Some ''pt''\<rparr>),
      (''ot visit'', \<lparr>siteBType = ''standard'', discipline = Some ''ot''\<rparr>),
      (''cota visit'', \<lparr>siteBType = ''standard'', discipline = Some ''ot''\<rparr>),
      (''st visit'', \<lparr>siteBType = ''standard'', discipline = Some ''st''\<rparr>),
      (''standard'', \<lparr>siteBType = ''standard'', discipline = None\<rparr>),
      (''pt evaluation'', \<lparr>siteBType = ''initial eval'', discipline = Some ''pt''\<rparr>),
      (''ot evaluation'', \<lparr>siteBType = ''initial eval'', discipline = Some ''ot''\<rparr>),
      (''st evaluation'', \<lparr>siteBType = ''initial eval'', discipline = Some ''st''\<rparr>),
      (''initial eval'', \<lparr>siteBType = ''initial eval'', discipline = None\<rparr>),
      (''evaluation'', \<lparr>siteBType = ''initial eval'', discipline = None\<rparr>),
      (''pt re-evaluation'', \<lparr>siteBType = ''reassessment'', discipline = Some ''pt''\<rparr>),
      (''ot re-evaluation'', \<lparr>siteBType = ''reassessment'', discipline = Some ''ot''\<rparr>),
      (''re-evaluation'', \<lparr>siteBType = ''reassessment'', discipline = None\<rparr>),
      (''reassessment'', \<lparr>siteBType = ''reassessment'', discipline = None\<rparr>),
      (''discharge'', \<lparr>siteBType = ''dc oasis'', discipline = None\<rparr>),
      (''dc oasis'', \<lparr>siteBType = ''dc oasis'', discipline = None\<rparr>),
      (''recertification'', \<lparr>siteBType = ''recertification'', discipline = None\<rparr>)]"

definition getSiteBMapping :: "string \<Rightarrow> VisitTypeMapping option" where
  \<comment> \<open>A key that the table does not hold gives \<open>None\<close>. (For the two keys that name a
      property every object inherits, the source reads that property instead; its fields
      are undefined, so the expected type and discipline below come out the same.)\<close>
  "getSiteBMapping siteATaskName = map_of SITE_A_TO_SITE_B (normalize_str siteATaskName)"

definition expectedTypeOf :: "string \<Rightarrow> string" where
  \<comment> \<open>\<open>mapping?.siteBType ?? normalize(name)\<close>\<close>
  "expectedTypeOf name =
     (case getSiteBMapping name of None \<Rightarrow> normalize_str name | Some m \<Rightarrow> siteBType m)"

definition expectedDisciplineOf :: "string \<Rightarrow> string option" where
  \<comment> \<open>\<open>mapping?.discipline ?? null\<close>\<close>
  "expectedDisciplineOf name =
     (case getSiteBMapping name of None \<Rightarrow> None | Some m \<Rightarrow> discipline m)"

section \<open>The schedule of Site B\<close>

text \<open>
  A visit card of the schedule list, as the page gives it. A card has at most one element
  of each kind, and a field is \<open>None\<close> when the card has no such element (or attribute).
  The source tests for that before it reads, except for the therapists and for the link
  to the detail page: there a missing element makes the read, or the click, time out. The
  last field holds the times that the detail page behind the card's link shows; it is
  \<open>None\<close> when the card has no such link or the detail page cannot be read.
\<close>

record card =
  cardType :: "string option"
  cardDate :: "string option"
  cardDiscipline :: "string option"
  cardTherapists :: "string option"
  cardStatus :: "string option"
  cardTime :: "string option"
  cardDetail :: "(string \<times> string) option"

datatype ScheduleResult = SCHEDULED | INCOMPLETE | VIEW_DOCUMENT | NOT_FOUND

definition disciplineDiffers :: "string option \<Rightarrow> card \<Rightarrow> bool" where
  \<comment> \<open>the discipline check: made only when the expected discipline is a non-empty string\<close>
  "disciplineDiffers expectedDiscipline c =
     (case expectedDiscipline of
        None \<Rightarrow> False
      | Some d \<Rightarrow>
          d \<noteq> [] \<and> normalize_str (case cardDiscipline c of None \<Rightarrow> [] | Some a \<Rightarrow> a) \<noteq> d)"

fun resolveScan ::
  "js_host \<Rightarrow> string \<Rightarrow> string option \<Rightarrow> string \<Rightarrow> card list \<Rightarrow> ScheduleResult" where
  "resolveScan J expectedType expectedDiscipline expectedDate [] = NOT_FOUND"
| "resolveScan J expectedType expectedDiscipline expectedDate (c # cs) =
     (case cardType c of
        None \<Rightarrow> resolveScan J expectedType expectedDiscipline expectedDate cs
      | Some t \<Rightarrow>
          (case cardDate c of
             None \<Rightarrow> resolveScan J expectedType expectedDiscipline expectedDate cs
           | Some d \<Rightarrow>
               if normalize_str t \<noteq> expectedType \<or> normalizeDate J (trim d) \<noteq> expectedDate
               then resolveScan J expectedType expectedDiscipline expectedDate cs
               else if disciplineDiffers expectedDiscipline c
               then resolveScan J expectedType expectedDiscipline expectedDate cs
               else (case cardStatus c of
                       None \<Rightarrow> NOT_FOUND
                     | Some st \<Rightarrow>
                         (let rawStatus = normalize_str st
                          in if includesStr rawStatus ''scheduled'' then SCHEDULED
                             else if includesStr rawStatus ''incomplete'' then INCOMPLETE
                             else if includesStr rawStatus ''view'' then VIEW_DOCUMENT
                             else NOT_FOUND))))"

definition resolveScheduleForVisit ::
  "js_host \<Rightarrow> card list \<Rightarrow> string \<Rightarrow> string \<Rightarrow> ScheduleResult" where
  "resolveScheduleForVisit J cards name date =
     (if isDischarge name then NOT_FOUND
      else resolveScan J (expectedTypeOf name) (expectedDisciplineOf name)
             (normalizeDate J date) cards)"

record ScheduleTimes =
  timeIn :: string
  timeOut :: string
  documents :: "string list"
  siteBStatus :: string

datatype visit_error =
    SkippedInvalidVisit string           \<comment> \<open>\<open>Skipped invalid visit: <name>\<close>\<close>
  | SkipNoScheduledTime string string    \<comment> \<open>\<open>SKIP:no_scheduled_time\<close> with name and date\<close>
  | VisitNotFound string string          \<comment> \<open>\<open>Visit not found in Site B: <name> <date>\<close>\<close>
  | TimeoutError                         \<comment> \<open>a wait, a read or a click on the page timed out\<close>

definition afterLastParen :: "string \<Rightarrow> string option" where
  \<comment> \<open>for the text after an opening parenthesis: what follows the last closing parenthesis
      of the same line, which is where the greedy \<open>.*\)\<close> ends\<close>
  "afterLastParen r =
     (let seg = takeWhile (\<lambda>c. \<not> isLineTerminator c) r;
          k = length (dropWhile (\<lambda>c. c \<noteq> CHR '')'') (rev seg))
      in if k = 0 then None else Some (drop k r))"

fun stripParenGroup :: "string \<Rightarrow> string" where
  \<comment> \<open>\<open>s.replace(/\(.*\)/, '')\<close>: the leftmost match only\<close>
  "stripParenGroup [] = []"
| "stripParenGroup (c # cs) =
     (if c = CHR ''(''
      then (case afterLastParen cs of
              Some rest \<Rightarrow> rest
            | None \<Rightarrow> c # stripParenGroup cs)
      else c # stripParenGroup cs)"

fun stripWsParenGroup :: "string \<Rightarrow> string" where
  \<comment> \<open>\<open>s.replace(/\s*\(.*\)/, '')\<close>: the leftmost match only\<close>
  "stripWsParenGroup [] = []"
| "stripWsParenGroup (c # cs) =
     (case dropWhile isWhitespace (c # cs) of
        [] \<Rightarrow> c # stripWsParenGroup cs
      | p # r \<Rightarrow>
          if p = CHR ''(''
          then (case afterLastParen r of
                  Some rest \<Rightarrow> rest
                | None \<Rightarrow> c # stripWsParenGroup cs)
          else c # stripWsParenGroup cs)"

definition therapistMismatch :: "string \<Rightarrow> string \<Rightarrow> bool" where
  \<comment> \<open>the test, on the hint and the card's therapist text, that makes the source print its
      therapist warning\<close>
  "therapistMismatch hint therapists =
     (let therapistText = normalize_str therapists;
          therapistKey = stripWsParenGroup (normalize_str hint)
      in \<not> includesStr therapistText (last (splitChar (CHR '' '') therapistKey)))"

definition therapistRead :: "string option \<Rightarrow> card \<Rightarrow> nat \<Rightarrow> (nat list) option" where
  \<comment> \<open>The optional therapist check on the card at index \<open>i\<close>: the warnings it prints, or
      \<open>None\<close> when the read of the therapist text times out. Without a hint, or with an
      empty one, nothing is read.\<close>
  "therapistRead hint c i =
     (case hint of
        None \<Rightarrow> Some []
      | Some h \<Rightarrow>
          if h = [] then Some []
          else (case cardTherapists c of
                  None \<Rightarrow> None
                | Some t \<Rightarrow> Some (if therapistMismatch h t then [i] else [])))"

text \<open>
  The scan returns the indices of the cards for which the therapist warning was printed,
  and either the error thrown or the times returned.
\<close>

fun openScan ::
  "js_host \<Rightarrow> string \<Rightarrow> string \<Rightarrow> string option \<Rightarrow> string \<Rightarrow> string option \<Rightarrow> string
     \<Rightarrow> nat \<Rightarrow> card list \<Rightarrow> nat list \<times> (visit_error + ScheduleTimes)" where
  "openScan J name date hint expectedType expectedDiscipline expectedDate i [] =
     ([], Inl (VisitNotFound name date))"
| "openScan J name date hint expectedType expectedDiscipline expectedDate i (c # cs) =
     (case cardType c of
        None \<Rightarrow> openScan J name date hint expectedType expectedDiscipline expectedDate (Suc i) cs
      | Some t \<Rightarrow>
          if normalize_str t \<noteq> expectedType
          then openScan J name date hint expectedType expectedDiscipline expectedDate (Suc i) cs
          else (case cardDate c of
                  None \<Rightarrow>
                    openScan J name date hint expectedType expectedDiscipline expectedDate
                      (Suc i) cs
                | Some d \<Rightarrow>
                    if normalizeDate J (trim d) \<noteq> expectedDate
                    then openScan J name date hint expectedType expectedDiscipline expectedDate
                           (Suc i) cs
                    else if disciplineDiffers expectedDiscipline c
                    then openScan J name date hint expectedType expectedDiscipline expectedDate
                           (Suc i) cs
                    else
                      (case therapistRead hint c i of
                         None \<Rightarrow> ([], Inl TimeoutError)
                       | Some warnings \<Rightarrow>
                           (let status = (case cardStatus c of
                                            None \<Rightarrow> []
                                          | Some st \<Rightarrow> normalize_str st);
                                noTime = (case cardTime c of
                                            None \<Rightarrow> False
                                          | Some tt \<Rightarrow>
                                              includesStr (normalize_str tt) ''no scheduled'')
                            in if noTime then (warnings, Inl (SkipNoScheduledTime name date))
                               else (case cardDetail c of
                                       None \<Rightarrow> (warnings, Inl TimeoutError)
                                     | Some (tIn, tOut) \<Rightarrow>
                                         (warnings,
                                          Inr \<lparr> timeIn = tIn, timeOut = tOut, documents = [],
                                                siteBStatus = status \<rparr>))))))"

definition openVisitInSchedule ::
  "js_host \<Rightarrow> card list \<Rightarrow> string \<Rightarrow> string \<Rightarrow> string option
     \<Rightarrow> nat list \<times> (visit_error + ScheduleTimes)" where
  \<comment> \<open>After the guard on its arguments the source waits for a card to show; on a schedule
      without cards the wait times out.\<close>
  "openVisitInSchedule J cards siteAVisitName date hint =
     (if date = [] \<or> startsWith (toLowerCase siteAVisitName) ''del''
      then ([], Inl (SkippedInvalidVisit siteAVisitName))
      else if cards = [] then ([], Inl TimeoutError)
      else openScan J siteAVisitName date hint (expectedTypeOf siteAVisitName)
             (expectedDisciplineOf siteAVisitName) (normalizeDate J date) 0 cards)"


section \<open>Therapist selection when a visit is added to Site A\<close>

fun splitWsRuns :: "bool \<Rightarrow> string \<Rightarrow> string list" where
  \<comment> \<open>\<open>s.split(/\s+/)\<close>; the flag says that the previous character was whitespace\<close>
  "splitWsRuns inRun [] = [[]]"
| "splitWsRuns inRun (c # cs) =
     (if isWhitespace c
      then (if inRun then splitWsRuns True cs else [] # splitWsRuns True cs)
      else (case splitWsRuns False cs of
              [] \<Rightarrow> [[c]]
            | w # ws \<Rightarrow> (c # w) # ws))"

record therapist_option =
  optionText :: string             \<comment> \<open>the inner text of the option\<close>
  optionValue :: "string option"   \<comment> \<open>its \<open>value\<close> attribute\<close>

record best_match =
  bestValue :: "string option"
  bestLabel :: string
  bestScore :: nat

definition therapistWordsOf :: "string \<Rightarrow> string list" where
  "therapistWordsOf hint =
     filter (\<lambda>w. w \<noteq> [])
       (splitWsRuns False (trim (stripParenGroup (toLowerCase hint))))"

definition lastNameOf :: "string \<Rightarrow> string option" where
  \<comment> \<open>the last word; undefined (\<open>None\<close>) when there is no word\<close>
  "lastNameOf hint =
     (let ws = therapistWordsOf hint in if ws = [] then None else Some (last ws))"

definition firstNameOf :: "string \<Rightarrow> string" where
  "firstNameOf hint = joinWith '' '' (butlast (therapistWordsOf hint))"

definition optionScore :: "string option \<Rightarrow> string \<Rightarrow> string \<Rightarrow> nat" where
  \<comment> \<open>An undefined last name concatenates as the text \<open>undefined\<close> and is equal to no string.\<close>
  "optionScore lastName firstName text =
     (if startsWith text ((case lastName of None \<Rightarrow> ''undefined'' | Some l \<Rightarrow> l) @ '','')
         \<or> Some (trim (hd (splitChar (CHR '','') text))) = lastName
      then 2 else 0)
     + (if firstName \<noteq> [] \<and> includesStr text firstName then 1 else 0)"

definition considerOption ::
  "string option \<Rightarrow> string \<Rightarrow> best_match \<Rightarrow> therapist_option \<Rightarrow> best_match" where
  \<comment> \<open>one round of the loop over the options\<close>
  "considerOption lastName firstName best opt =
     (let text = toLowerCase (trim (optionText opt))
      in case optionValue opt of
           None \<Rightarrow> best
         | Some val \<Rightarrow>
             if val = [] \<or> text = [] then best
             else if optionScore lastName firstName text > bestScore best
             then \<lparr> bestValue = Some val, bestLabel = trim (optionText opt),
                    bestScore = optionScore lastName firstName text \<rparr>
             else best)"

definition selectTherapist :: "string \<Rightarrow> therapist_option list \<Rightarrow> best_match option" where
  \<comment> \<open>step 4 of \<open>addMissingVisitInSiteA\<close>: \<open>None\<close> where the source gives up and returns
      false, otherwise the option it selects\<close>
  "selectTherapist hint opts =
     (let best = foldl (considerOption (lastNameOf hint) (firstNameOf hint))
                   \<lparr> bestValue = None, bestLabel = [], bestScore = 0 \<rparr> opts
      in if bestValue best = None \<or> bestScore best < 2 then None else Some best)"

section \<open>The main loop: deduplication and missing visits\<close>

fun mapSet :: "'k \<Rightarrow> 'v \<Rightarrow> ('k \<times> 'v) list \<Rightarrow> ('k \<times> 'v) list" where
  \<comment> \<open>\<open>Map.prototype.set\<close> on the entries in insertion order: a key that is present keeps
      its place and takes the new value, a new key goes to the end\<close>
  "mapSet k v [] = [(k, v)]"
| "mapSet k v ((k', v') # m) = (if k' = k then (k, v) # m else (k', v') # mapSet k v m)"

definition newMap :: "('k \<times> 'v) list \<Rightarrow> ('k \<times> 'v) list" where
  \<comment> \<open>\<open>new Map(entries)\<close>\<close>
  "newMap entries = foldl (\<lambda>m (k, v). mapSet k v m) [] entries"

definition visitKey :: "js_host \<Rightarrow> visit \<Rightarrow> string" where
  \<comment> \<open>\<open>normalizeVisitKey(v.taskName, v.visitDate || v.targetDate)\<close>\<close>
  "visitKey J v =
     normalizeVisitKey J (taskName v) (if visitDate v = [] then targetDate v else visitDate v)"

definition uniqueVisits :: "js_host \<Rightarrow> visit list \<Rightarrow> visit list" where
  "uniqueVisits J visits = map snd (newMap (map (\<lambda>v. (visitKey J v, v)) visits))"

definition siteAVisitKeys :: "js_host \<Rightarrow> visit list \<Rightarrow> string set" where
  "siteAVisitKeys J visits = set (map (visitKey J) (uniqueVisits J visits))"






section \<open>Reference definitions\<close>

text \<open>
  The definitions of this section do not come from the source. They state, in the words of
  the specification, what the properties below compare the code with.
\<close>

definition exampleHost :: js_host where
  \<comment> \<open>a host for the examples; none of them reads a number outside the fragment\<close>
  "exampleHost = \<lparr> numberString = (\<lambda>s. ''NaN''), parseIntString = (\<lambda>s. ''NaN'') \<rparr>"

definition cardSatisfies :: "js_host \<Rightarrow> string \<Rightarrow> string option \<Rightarrow> string \<Rightarrow> card \<Rightarrow> bool" where
  \<comment> \<open>the three predicates of the visit matcher: the normalized type and the normalized date
      are the expected ones and, when a discipline is expected, the normalized discipline
      is the expected one\<close>
  "cardSatisfies J expectedType expectedDiscipline expectedDate c =
     ((case cardType c of None \<Rightarrow> False | Some t \<Rightarrow> normalize_str t = expectedType)
      \<and> (case cardDate c of None \<Rightarrow> False | Some d \<Rightarrow> normalizeDate J (trim d) = expectedDate)
      \<and> (case expectedDiscipline of
            None \<Rightarrow> True
          | Some d \<Rightarrow> normalize_str (case cardDiscipline c of None \<Rightarrow> [] | Some a \<Rightarrow> a) = d))"

definition expectedCard :: "js_host \<Rightarrow> string \<Rightarrow> string \<Rightarrow> card \<Rightarrow> bool" where
  \<comment> \<open>the predicates of the visit matcher for a Site A task name and a visit date\<close>
  "expectedCard J name date =
     cardSatisfies J (expectedTypeOf name) (expectedDisciplineOf name) (normalizeDate J date)"

definition noScheduledTime :: "card \<Rightarrow> bool" where
  \<comment> \<open>the time slot of the card says that no time is scheduled yet\<close>
  "noScheduledTime c =
     (case cardTime c of None \<Rightarrow> False | Some tt \<Rightarrow> includesStr (normalize_str tt) ''no scheduled'')"

definition classifyStatus :: "string \<Rightarrow> ScheduleResult" where
  \<comment> \<open>the precedence of the status resolver, on the normalized status text\<close>
  "classifyStatus rawStatus =
     (if includesStr rawStatus ''scheduled'' then SCHEDULED
      else if includesStr rawStatus ''incomplete'' then INCOMPLETE
      else if includesStr rawStatus ''view'' then VIEW_DOCUMENT
      else NOT_FOUND)"

definition hintGiven :: "string option \<Rightarrow> bool" where
  \<comment> \<open>a therapist hint is supplied (and is not the empty string)\<close>
  "hintGiven hint = (case hint of None \<Rightarrow> False | Some h \<Rightarrow> h \<noteq> [])"

definition cardOutcome :: "string \<Rightarrow> string \<Rightarrow> card \<Rightarrow> visit_error + ScheduleTimes" where
  \<comment> \<open>what opening a selected card gives: the skip signal when its time slot says that no
      time is scheduled; otherwise the times of its detail page with its normalized status
      text, or a timeout when the detail page cannot be reached\<close>
  "cardOutcome name date c =
     (if noScheduledTime c then Inl (SkipNoScheduledTime name date)
      else (case cardDetail c of
              None \<Rightarrow> Inl TimeoutError
            | Some (tIn, tOut) \<Rightarrow>
                Inr \<lparr> timeIn = tIn, timeOut = tOut, documents = [],
                      siteBStatus = (case cardStatus c of
                                       None \<Rightarrow> []
                                     | Some st \<Rightarrow> normalize_str st) \<rparr>))"

definition AM_forms :: "string list" where
  \<comment> \<open>the spellings of AM, in any letter case\<close>
  "AM_forms = [''AM'', ''Am'', ''aM'', ''am'']"

definition PM_forms :: "string list" where
  \<comment> \<open>the spellings of PM, in any letter case\<close>
  "PM_forms = [''PM'', ''Pm'', ''pM'', ''pm'']"

definition hour24 :: "bool \<Rightarrow> nat \<Rightarrow> nat" where
  \<comment> \<open>the hour of a 12-hour reading on the 24-hour clock: 12 AM is 0 and 1 PM to 11 PM are
      13 to 23; any other hour is kept\<close>
  "hour24 pm h = (if pm then (if h < 12 then h + 12 else h) else (if h = 12 then 0 else h))"

definition timeParts :: "string \<Rightarrow> string option \<Rightarrow> string \<Rightarrow> string \<Rightarrow> bool" where
  \<comment> \<open>the parts of a written time: hour digits, optional minute digits, whitespace, and AM
      or PM in any letter case\<close>
  "timeParts hs mo ws ap =
     (hs \<noteq> [] \<and> list_all isDigit hs
      \<and> (case mo of None \<Rightarrow> True | Some ms \<Rightarrow> ms \<noteq> [] \<and> list_all isDigit ms)
      \<and> list_all isWhitespace ws \<and> ap \<in> set (AM_forms @ PM_forms))"

definition timeText :: "string \<Rightarrow> string option \<Rightarrow> string \<Rightarrow> string \<Rightarrow> string" where
  \<comment> \<open>the time written from its parts\<close>
  "timeText hs mo ws ap =
     hs @ (case mo of None \<Rightarrow> [] | Some ms \<Rightarrow> '':'' @ ms) @ ws @ ap"

definition clockText :: "js_host \<Rightarrow> string \<Rightarrow> string option \<Rightarrow> string \<Rightarrow> string" where
  \<comment> \<open>the 24-hour text of a written time: hour and minutes, each padded to two digits\<close>
  "clockText J hs mo ap =
     padStart2 (if safeDigits hs then showNat (hour24 (ap \<in> set PM_forms) (digitsValue hs))
                else parseIntString J hs)
     @ '':''
     @ padStart2 (case mo of
                    None \<Rightarrow> ''0''
                  | Some ms \<Rightarrow> if safeDigits ms then showNat (digitsValue ms)
                              else parseIntString J ms)"

fun firstOccurrences :: "'a list \<Rightarrow> 'a list" where
  \<comment> \<open>the distinct elements of a list, each at the place of its first occurrence\<close>
  "firstOccurrences [] = []"
| "firstOccurrences (x # xs) = x # removeAll x (firstOccurrences xs)"


section \<open>Properties of the string helpers\<close>

lemma startsWith_append: "startsWith s (k @ k') \<Longrightarrow> startsWith s k"
  unfolding startsWith_def
  by (metis append_eq_conv_conj length_append take_take min_def le_add1)

lemma includesStr_append: "includesStr s (k @ k') \<Longrightarrow> includesStr s k"
  by (induction s) (auto dest: startsWith_append)

section \<open>The exclusion predicates of the Site A scan\<close>

lemma scanRows_names:
  "v \<in> set (scanRows i rows) \<Longrightarrow>
     \<not> isSOC (taskName v) \<and> \<not> isDischarge (taskName v) \<and> \<not> isDeleted (taskName v)"
  by (induction rows arbitrary: i) (auto simp: Let_def split: if_splits)

text \<open>
  Claim C10. The exclusion predicates test substrings, not whole labels: \<open>isSOC\<close> holds
  exactly when the upper-cased name contains \<open>SOC\<close>, \<open>START OF CARE\<close> or \<open>OASIS-E1 START\<close>
  (the fourth entry of the list, \<open>SOC OASIS\<close>, adds nothing), \<open>isDischarge\<close> exactly when it
  contains one of its four entries, and \<open>isDeleted\<close> exactly when the trimmed upper-cased
  name starts with \<open>DEL \<close>. No visit that the scan of Site A lists has a task name that
  satisfies one of the three.
\<close>

theorem exclusion_is_substring_based:
  "(isSOC name \<longleftrightarrow>
      includesStr (toUpperCase name) ''SOC''
      \<or> includesStr (toUpperCase name) ''START OF CARE''
      \<or> includesStr (toUpperCase name) ''OASIS-E1 START'')
   \<and> (isDischarge name \<longleftrightarrow>
      includesStr (toUpperCase name) ''DISCHARGE''
      \<or> includesStr (toUpperCase name) ''DC OASIS''
      \<or> includesStr (toUpperCase name) ''OASIS-E1 DISCHARGE''
      \<or> includesStr (toUpperCase name) ''OASIS-E1 DC'')
   \<and> (isDeleted name \<longleftrightarrow> startsWith (toUpperCase (trim name)) ''DEL '')
   \<and> (\<forall>v \<in> set (getAllIncompleteVisits rows).
         \<not> isSOC (taskName v) \<and> \<not> isDischarge (taskName v) \<and> \<not> isDeleted (taskName v))"
proof -
  have soc: "includesStr s ''SOC OASIS'' \<Longrightarrow> includesStr s ''SOC''" for s
    using includesStr_append [of s "''SOC''" "'' OASIS''"] by simp
  have a: "isSOC name \<longleftrightarrow>
      includesStr (toUpperCase name) ''SOC''
      \<or> includesStr (toUpperCase name) ''START OF CARE''
      \<or> includesStr (toUpperCase name) ''OASIS-E1 START''"
    unfolding isSOC_def SOC_NAMES_def using soc by auto
  have b: "isDischarge name \<longleftrightarrow>
      includesStr (toUpperCase name) ''DISCHARGE''
      \<or> includesStr (toUpperCase name) ''DC OASIS''
      \<or> includesStr (toUpperCase name) ''OASIS-E1 DISCHARGE''
      \<or> includesStr (toUpperCase name) ''OASIS-E1 DC''"
    unfolding isDischarge_def DISCHARGE_NAMES_def by auto
  have c: "isDeleted name \<longleftrightarrow> startsWith (toUpperCase (trim name)) ''DEL ''"
    by (simp add: isDeleted_def)
  have d: "\<forall>v \<in> set (getAllIncompleteVisits rows).
         \<not> isSOC (taskName v) \<and> \<not> isDischarge (taskName v) \<and> \<not> isDeleted (taskName v)"
    unfolding getAllIncompleteVisits_def using scanRows_names by blast
  from a b c d show ?thesis by blast
qed

text \<open>
  At a table of two rows, \<open>Associate Visit\<close> and \<open>PT Visit\<close>: the first name contains \<open>SOC\<close>
  once upper-cased, so it counts as a start of care, and only the second row is listed.
\<close>

theorem exclusion_is_substring_based_witness:
  "isSOC ''Associate Visit''
   \<and> includesStr (toUpperCase ''Associate Visit'') ''SOC''
   \<and> map taskName (getAllIncompleteVisits
        [\<lparr> taskTexts = [''Associate'', ''Visit''], attachmentIcons = 0,
            visitDateDiv = ''2/3/2026'', visitDateInput = None,
            targetDateDiv = ''2/3/2026'', therapistCell = Some ''Diaz, Jessica'' \<rparr>,
         \<lparr> taskTexts = [''PT Visit''], attachmentIcons = 0,
            visitDateDiv = ''2/3/2026'', visitDateInput = None,
            targetDateDiv = ''2/3/2026'', therapistCell = Some ''Diaz, Jessica'' \<rparr>])
       = [''PT Visit'']
   \<and> \<not> isSOC ''PT Visit'' \<and> \<not> isDischarge ''PT Visit'' \<and> \<not> isDeleted ''PT Visit''"
proof -
  define rows where "rows =
    [\<lparr> taskTexts = [''Associate'', ''Visit''], attachmentIcons = 0,
        visitDateDiv = ''2/3/2026'', visitDateInput = None,
        targetDateDiv = ''2/3/2026'', therapistCell = Some ''Diaz, Jessica'' \<rparr>,
      \<lparr> taskTexts = [''PT Visit''], attachmentIcons = 0,
        visitDateDiv = ''2/3/2026'', visitDateInput = None,
        targetDateDiv = ''2/3/2026'', therapistCell = Some ''Diaz, Jessica'' \<rparr>]"
  define v0 where "v0 = \<lparr> taskName = ''PT Visit'', therapist = ''Diaz, Jessica'',
      visitDate = ''2/3/2026'', targetDate = ''2/3/2026'', siteBVisitName = ''PT Visit'',
      rowIndex = 1, needsAction = True, actualVisitType = ''Other'' \<rparr>"
  have listed: "getAllIncompleteVisits rows = [v0]"
    unfolding rows_def v0_def by code_simp
  have name0: "taskName v0 = ''PT Visit''"
    by (simp add: v0_def)
  have sub: "includesStr (toUpperCase ''Associate Visit'') ''SOC''"
    by code_simp
  note th = exclusion_is_substring_based [of "''Associate Visit''" rows]
  from th sub have soc: "isSOC ''Associate Visit''"
    by blast
  from th have "\<forall>v \<in> set (getAllIncompleteVisits rows).
         \<not> isSOC (taskName v) \<and> \<not> isDischarge (taskName v) \<and> \<not> isDeleted (taskName v)"
    by blast
  then have pt: "\<not> isSOC ''PT Visit'' \<and> \<not> isDischarge ''PT Visit'' \<and> \<not> isDeleted ''PT Visit''"
    unfolding listed using name0 by simp
  have "map taskName (getAllIncompleteVisits rows) = [''PT Visit'']"
    unfolding listed using name0 by simp
  with soc sub pt show ?thesis
    unfolding rows_def by blast
qed

section \<open>The visit type mapping\<close>

lemma table_disciplines:
  "list_all (\<lambda>(k, m). discipline m \<in> {None, Some ''pt'', Some ''ot'', Some ''st''}) SITE_A_TO_SITE_B"
  unfolding SITE_A_TO_SITE_B_def by simp

lemma expectedDisciplineOf_cases:
  "expectedDisciplineOf name \<in> {None, Some ''pt'', Some ''ot'', Some ''st''}"
proof (cases "getSiteBMapping name")
  case None
  then show ?thesis by (simp add: expectedDisciplineOf_def)
next
  case (Some m)
  then have "(normalize_str name, m) \<in> set SITE_A_TO_SITE_B"
    unfolding getSiteBMapping_def by (rule map_of_SomeD)
  with table_disciplines have "discipline m \<in> {None, Some ''pt'', Some ''ot'', Some ''st''}"
    unfolding list_all_iff by blast
  with Some show ?thesis by (simp add: expectedDisciplineOf_def)
qed

lemma expectedDisciplineOf_not_empty: "expectedDisciplineOf name \<noteq> Some []"
  using expectedDisciplineOf_cases [of name] by auto

lemma table_keys_pta:
  "list_all (\<lambda>(k, m). includesStr k ''pta'' \<longrightarrow> k = ''pta visit'') SITE_A_TO_SITE_B"
  unfolding SITE_A_TO_SITE_B_def by code_simp

lemma table_keys_cota:
  "list_all (\<lambda>(k, m). includesStr k ''cota'' \<longrightarrow> k = ''cota visit'') SITE_A_TO_SITE_B"
  unfolding SITE_A_TO_SITE_B_def by code_simp

lemma mapping_marker_only:
  assumes "list_all (\<lambda>(k, m). includesStr k marker \<longrightarrow> k = key) SITE_A_TO_SITE_B"
    and "includesStr (normalize_str label) marker" and "normalize_str label \<noteq> key"
  shows "getSiteBMapping label = None"
proof (rule ccontr)
  assume "getSiteBMapping label \<noteq> None"
  then obtain m where "getSiteBMapping label = Some m" by auto
  then have "(normalize_str label, m) \<in> set SITE_A_TO_SITE_B"
    unfolding getSiteBMapping_def by (rule map_of_SomeD)
  with assms(1) have "includesStr (normalize_str label) marker \<longrightarrow> normalize_str label = key"
    unfolding list_all_iff by blast
  with assms(2,3) show False by simp
qed

lemma mapping_pta_visit: "map_of SITE_A_TO_SITE_B ''pta visit'' = Some \<lparr>siteBType = ''standard'', discipline = Some ''pt''\<rparr>"
  unfolding SITE_A_TO_SITE_B_def by simp

lemma mapping_cota_visit: "map_of SITE_A_TO_SITE_B ''cota visit'' = Some \<lparr>siteBType = ''standard'', discipline = Some ''ot''\<rparr>"
  unfolding SITE_A_TO_SITE_B_def by simp

text \<open>
  Claim C7, as the code has it. A label that the table knows resolves to its entry, and an
  unknown label to the fallback: its own normalized text as the type, and no discipline.
  The role markers act through the table only: a label that normalizes to \<open>pta visit\<close>
  resolves to the discipline \<open>pt\<close> and one that normalizes to \<open>cota visit\<close> to \<open>ot\<close>; any
  other label that contains \<open>pta\<close> or \<open>cota\<close> is unknown to the table and resolves to the
  fallback, with no discipline.
\<close>

theorem mapping_resolution:
  "(getSiteBMapping label = Some m \<longrightarrow>
      expectedTypeOf label = siteBType m \<and> expectedDisciplineOf label = discipline m)
   \<and> (getSiteBMapping label = None \<longrightarrow>
      expectedTypeOf label = normalize_str label \<and> expectedDisciplineOf label = None)
   \<and> (normalize_str label = ''pta visit'' \<longrightarrow>
      expectedTypeOf label = ''standard'' \<and> expectedDisciplineOf label = Some ''pt'')
   \<and> (normalize_str label = ''cota visit'' \<longrightarrow>
      expectedTypeOf label = ''standard'' \<and> expectedDisciplineOf label = Some ''ot'')
   \<and> (includesStr (normalize_str label) ''pta'' \<and> normalize_str label \<noteq> ''pta visit'' \<longrightarrow>
      expectedTypeOf label = normalize_str label \<and> expectedDisciplineOf label = None)
   \<and> (includesStr (normalize_str label) ''cota'' \<and> normalize_str label \<noteq> ''cota visit'' \<longrightarrow>
      expectedTypeOf label = normalize_str label \<and> expectedDisciplineOf label = None)"
proof -
  have a: "getSiteBMapping label = Some m \<longrightarrow>
      expectedTypeOf label = siteBType m \<and> expectedDisciplineOf label = discipline m"
    by (simp add: expectedTypeOf_def expectedDisciplineOf_def)
  have b: "getSiteBMapping label = None \<longrightarrow>
      expectedTypeOf label = normalize_str label \<and> expectedDisciplineOf label = None"
    by (simp add: expectedTypeOf_def expectedDisciplineOf_def)
  have c: "normalize_str label = ''pta visit'' \<longrightarrow>
      expectedTypeOf label = ''standard'' \<and> expectedDisciplineOf label = Some ''pt''"
    by (simp add: expectedTypeOf_def expectedDisciplineOf_def getSiteBMapping_def mapping_pta_visit)
  have d: "normalize_str label = ''cota visit'' \<longrightarrow>
      expectedTypeOf label = ''standard'' \<and> expectedDisciplineOf label = Some ''ot''"
    by (simp add: expectedTypeOf_def expectedDisciplineOf_def getSiteBMapping_def mapping_cota_visit)
  have e: "includesStr (normalize_str label) ''pta'' \<and> normalize_str label \<noteq> ''pta visit'' \<longrightarrow>
      expectedTypeOf label = normalize_str label \<and> expectedDisciplineOf label = None"
    using mapping_marker_only [OF table_keys_pta, of label] b by blast
  have f: "includesStr (normalize_str label) ''cota'' \<and> normalize_str label \<noteq> ''cota visit'' \<longrightarrow>
      expectedTypeOf label = normalize_str label \<and> expectedDisciplineOf label = None"
    using mapping_marker_only [OF table_keys_cota, of label] b by blast
  from a b c d e f show ?thesis by blast
qed

text \<open>
  Claim C7 as stated fails: the labels \<open>PTA Evaluation\<close> and \<open>COTA Evaluation\<close> contain a
  role marker, and their resolved discipline is none.
\<close>

theorem role_marker_override_counterexample:
  "includesStr (normalize_str ''PTA Evaluation'') ''pta''
   \<and> expectedDisciplineOf ''PTA Evaluation'' = None
   \<and> includesStr (normalize_str ''COTA Evaluation'') ''cota''
   \<and> expectedDisciplineOf ''COTA Evaluation'' = None"
  by code_simp


text \<open>
  The mapping at a known label, at the two role labels, at an unknown label and at two
  labels that contain a role marker without being a table entry.
\<close>

theorem mapping_resolution_witness:
  "getSiteBMapping ''PTA  Visit'' = Some \<lparr>siteBType = ''standard'', discipline = Some ''pt''\<rparr>
   \<and> expectedTypeOf ''PTA  Visit'' = ''standard''
   \<and> expectedDisciplineOf ''PTA  Visit'' = Some ''pt''
   \<and> normalize_str ''COTA Visit'' = ''cota visit''
   \<and> expectedDisciplineOf ''COTA Visit'' = Some ''ot''
   \<and> getSiteBMapping ''Wound Care'' = None
   \<and> expectedTypeOf ''Wound Care'' = ''wound care''
   \<and> expectedDisciplineOf ''Wound Care'' = None
   \<and> includesStr (normalize_str ''PTA Evaluation'') ''pta''
   \<and> normalize_str ''PTA Evaluation'' \<noteq> ''pta visit''
   \<and> expectedTypeOf ''PTA Evaluation'' = ''pta evaluation''
   \<and> expectedDisciplineOf ''PTA Evaluation'' = None
   \<and> includesStr (normalize_str ''COTA Evaluation'') ''cota''
   \<and> normalize_str ''COTA Evaluation'' \<noteq> ''cota visit''
   \<and> expectedDisciplineOf ''COTA Evaluation'' = None"
proof -
  have k1: "getSiteBMapping ''PTA  Visit'' = Some \<lparr>siteBType = ''standard'', discipline = Some ''pt''\<rparr>"
    by code_simp
  have k3: "normalize_str ''COTA Visit'' = ''cota visit''"
    by code_simp
  have k4: "getSiteBMapping ''Wound Care'' = None"
    by code_simp
  have k5: "normalize_str ''Wound Care'' = ''wound care''"
    by code_simp
  have k6: "includesStr (normalize_str ''PTA Evaluation'') ''pta''
            \<and> normalize_str ''PTA Evaluation'' \<noteq> ''pta visit''
            \<and> normalize_str ''PTA Evaluation'' = ''pta evaluation''"
    by code_simp
  have k7: "includesStr (normalize_str ''COTA Evaluation'') ''cota''
            \<and> normalize_str ''COTA Evaluation'' \<noteq> ''cota visit''"
    by code_simp
  from k1 mapping_resolution [of "''PTA  Visit''" "\<lparr>siteBType = ''standard'', discipline = Some ''pt''\<rparr>"]
  have "expectedTypeOf ''PTA  Visit'' = siteBType \<lparr>siteBType = ''standard'', discipline = Some ''pt''\<rparr>
        \<and> expectedDisciplineOf ''PTA  Visit'' = discipline \<lparr>siteBType = ''standard'', discipline = Some ''pt''\<rparr>"
    by blast
  then have r1: "expectedTypeOf ''PTA  Visit'' = ''standard''
            \<and> expectedDisciplineOf ''PTA  Visit'' = Some ''pt''"
    by simp
  from k3 mapping_resolution [of "''COTA Visit''"]
  have r2: "expectedDisciplineOf ''COTA Visit'' = Some ''ot''"
    by blast
  from k4 mapping_resolution [of "''Wound Care''"]
  have "expectedTypeOf ''Wound Care'' = normalize_str ''Wound Care''
            \<and> expectedDisciplineOf ''Wound Care'' = None"
    by blast
  with k5 have r3: "expectedTypeOf ''Wound Care'' = ''wound care''
            \<and> expectedDisciplineOf ''Wound Care'' = None"
    by metis
  from k6 mapping_resolution [of "''PTA Evaluation''"]
  have "expectedTypeOf ''PTA Evaluation'' = normalize_str ''PTA Evaluation''
            \<and> expectedDisciplineOf ''PTA Evaluation'' = None"
    by blast
  with k6 have r4: "expectedTypeOf ''PTA Evaluation'' = ''pta evaluation''
            \<and> expectedDisciplineOf ''PTA Evaluation'' = None"
    by metis
  from k7 mapping_resolution [of "''COTA Evaluation''"]
  have r5: "expectedDisciplineOf ''COTA Evaluation'' = None"
    by blast
  from k1 k3 k4 k6 k7 r1 r2 r3 r4 r5 show ?thesis
    by blast
qed


section \<open>The scans of the schedule\<close>

lemma disciplineDiffers_iff:
  "eD \<noteq> Some [] \<Longrightarrow>
   disciplineDiffers eD c \<longleftrightarrow>
     \<not> (case eD of None \<Rightarrow> True
         | Some d \<Rightarrow> normalize_str (case cardDiscipline c of None \<Rightarrow> [] | Some a \<Rightarrow> a) = d)"
  by (auto simp: disciplineDiffers_def split: option.splits)

lemma resolveScan_find:
  assumes "eD \<noteq> Some []"
  shows "resolveScan J eT eD eDate cards =
     (case find (cardSatisfies J eT eD eDate) cards of
        None \<Rightarrow> NOT_FOUND
      | Some c \<Rightarrow> (case cardStatus c of
                     None \<Rightarrow> NOT_FOUND
                   | Some st \<Rightarrow> classifyStatus (normalize_str st)))"
proof (induction cards)
  case Nil
  show ?case by simp
next
  case (Cons c cs)
  show ?case
  proof (cases "cardSatisfies J eT eD eDate c")
    case True
    then show ?thesis
      using assms
      by (auto simp: cardSatisfies_def disciplineDiffers_iff classifyStatus_def Let_def
          split: option.splits)
  next
    case False
    then have "resolveScan J eT eD eDate (c # cs) = resolveScan J eT eD eDate cs"
      using assms
      by (auto simp: cardSatisfies_def disciplineDiffers_iff split: option.splits)
    with False Cons.IH show ?thesis by simp
  qed
qed

lemma openScan_skip:
  "eD \<noteq> Some [] \<Longrightarrow> \<not> cardSatisfies J eT eD eDate c \<Longrightarrow>
   openScan J name date hint eT eD eDate i (c # cs)
     = openScan J name date hint eT eD eDate (Suc i) cs"
  by (auto simp: cardSatisfies_def disciplineDiffers_iff split: option.splits)

lemma openScan_hit:
  "eD \<noteq> Some [] \<Longrightarrow> cardSatisfies J eT eD eDate c \<Longrightarrow>
   openScan J name date hint eT eD eDate i (c # cs)
     = (case therapistRead hint c i of
          None \<Rightarrow> ([], Inl TimeoutError)
        | Some warnings \<Rightarrow> (warnings, cardOutcome name date c))"
  by (auto simp: cardSatisfies_def disciplineDiffers_iff noScheduledTime_def
      cardOutcome_def Let_def split: option.splits)

lemma openScan_outcome:
  assumes "eD \<noteq> Some []"
  shows "openScan J name date hint eT eD eDate i cards =
     (case find (cardSatisfies J eT eD eDate) cards of
        None \<Rightarrow> ([], Inl (VisitNotFound name date))
      | Some c \<Rightarrow>
          (case therapistRead hint c
                  (i + length (takeWhile (\<lambda>c. \<not> cardSatisfies J eT eD eDate c) cards)) of
             None \<Rightarrow> ([], Inl TimeoutError)
           | Some warnings \<Rightarrow> (warnings, cardOutcome name date c)))"
proof (induction cards arbitrary: i)
  case Nil
  show ?case by simp
next
  case (Cons c cs)
  show ?case
  proof (cases "cardSatisfies J eT eD eDate c")
    case True
    then show ?thesis
      by (simp only: openScan_hit [OF assms True] find.simps takeWhile.simps if_True
          not_True_eq_False if_False list.size add_0_right option.case)
  next
    case False
    show ?thesis
      using False Cons.IH [of "Suc i"]
      by (simp only: openScan_skip [OF assms False] find.simps takeWhile.simps if_False
          not_False_eq_True if_True list.size option.case add_Suc_right add_Suc add_0_right
          One_nat_def)
  qed
qed

lemma openVisitInSchedule_outcome:
  "openVisitInSchedule J cards name date hint =
     (if date = [] \<or> startsWith (toLowerCase name) ''del''
      then ([], Inl (SkippedInvalidVisit name))
      else if cards = [] then ([], Inl TimeoutError)
      else (case find (expectedCard J name date) cards of
              None \<Rightarrow> ([], Inl (VisitNotFound name date))
            | Some c \<Rightarrow>
                (case therapistRead hint c
                        (length (takeWhile (\<lambda>c. \<not> expectedCard J name date c) cards)) of
                   None \<Rightarrow> ([], Inl TimeoutError)
                 | Some warnings \<Rightarrow> (warnings, cardOutcome name date c))))"
  unfolding openVisitInSchedule_def openScan_outcome [OF expectedDisciplineOf_not_empty]
    expectedCard_def add_0
  by simp

lemma therapistRead_None_iff:
  "therapistRead hint c i = None \<longleftrightarrow> hintGiven hint \<and> cardTherapists c = None"
  by (auto simp: therapistRead_def hintGiven_def split: option.splits)

lemma therapistRead_no_hint: "therapistRead None c i = Some []"
  by (simp add: therapistRead_def)

lemma therapistRead_Some:
  "therapistRead hint c i = Some ws \<Longrightarrow>
     ws = (case hint of
             None \<Rightarrow> []
           | Some h \<Rightarrow>
               (case cardTherapists c of
                  None \<Rightarrow> []
                | Some t \<Rightarrow> if h \<noteq> [] \<and> therapistMismatch h t then [i] else []))"
  by (auto simp: therapistRead_def split: option.splits if_splits)

text \<open>
  Claim C1, as the code has it. When the visit is not a discharge, the first card that
  satisfies the type, date and discipline predicates decides the result, and its status
  text is classified, once normalized, by substring in a fixed order: \<open>scheduled\<close> gives
  \<open>SCHEDULED\<close>; else \<open>incomplete\<close> gives \<open>INCOMPLETE\<close>; else \<open>view\<close> gives \<open>VIEW_DOCUMENT\<close>;
  every other text gives \<open>NOT_FOUND\<close>. There is no result for missed visits.
\<close>

theorem status_precedence:
  assumes "\<not> isDischarge name"
    and "find (cardSatisfies J (expectedTypeOf name) (expectedDisciplineOf name)
                 (normalizeDate J date)) cards = Some c"
    and "cardStatus c = Some raw"
  shows "resolveScheduleForVisit J cards name date =
           (if includesStr (normalize_str raw) ''scheduled'' then SCHEDULED
            else if includesStr (normalize_str raw) ''incomplete'' then INCOMPLETE
            else if includesStr (normalize_str raw) ''view'' then VIEW_DOCUMENT
            else NOT_FOUND)"
  using assms
  by (simp add: resolveScheduleForVisit_def resolveScan_find [OF expectedDisciplineOf_not_empty]
      classifyStatus_def)

text \<open>
  The status text \<open>Scheduled (view)\<close> contains \<open>view\<close> too; it resolves to \<open>SCHEDULED\<close>.
\<close>

theorem status_precedence_witness:
  "\<not> isDischarge ''PTA Visit''
   \<and> cardStatus
        \<lparr> cardType = Some ''Standard'', cardDate = Some ''2/17/2026'',
          cardDiscipline = Some ''PT'', cardTherapists = Some ''JESSICA DIAZ (PTA)'',
          cardStatus = Some ''Scheduled (view)'', cardTime = Some ''2:30 PM'',
          cardDetail = Some (''2:30 PM'', ''3:15 PM'') \<rparr> = Some ''Scheduled (view)''
   \<and> includesStr (normalize_str ''Scheduled (view)'') ''view''
   \<and> resolveScheduleForVisit exampleHost
        [\<lparr> cardType = Some ''Standard'', cardDate = Some ''2/17/2026'',
           cardDiscipline = Some ''OT'', cardTherapists = Some ''BOB SMITH (COTA)'',
           cardStatus = Some ''Incomplete'', cardTime = Some ''9:00 AM'',
           cardDetail = Some (''9:00 AM'', ''9:45 AM'') \<rparr>,
         \<lparr> cardType = Some ''Standard'', cardDate = Some ''2/17/2026'',
           cardDiscipline = Some ''PT'', cardTherapists = Some ''JESSICA DIAZ (PTA)'',
           cardStatus = Some ''Scheduled (view)'', cardTime = Some ''2:30 PM'',
           cardDetail = Some (''2:30 PM'', ''3:15 PM'') \<rparr>]
        ''PTA Visit'' ''02/17/2026'' = SCHEDULED"
proof -
  define c1 where "c1 =
    \<lparr> cardType = Some ''Standard'', cardDate = Some ''2/17/2026'',
      cardDiscipline = Some ''OT'', cardTherapists = Some ''BOB SMITH (COTA)'',
      cardStatus = Some ''Incomplete'', cardTime = Some ''9:00 AM'',
      cardDetail = Some (''9:00 AM'', ''9:45 AM'') \<rparr>"
  define c2 where "c2 =
    \<lparr> cardType = Some ''Standard'', cardDate = Some ''2/17/2026'',
      cardDiscipline = Some ''PT'', cardTherapists = Some ''JESSICA DIAZ (PTA)'',
      cardStatus = Some ''Scheduled (view)'', cardTime = Some ''2:30 PM'',
      cardDetail = Some (''2:30 PM'', ''3:15 PM'') \<rparr>"
  have h1: "\<not> isDischarge ''PTA Visit''"
    by code_simp
  have h2: "find (cardSatisfies exampleHost (expectedTypeOf ''PTA Visit'')
                    (expectedDisciplineOf ''PTA Visit'')
                    (normalizeDate exampleHost ''02/17/2026'')) [c1, c2] = Some c2"
    unfolding c1_def c2_def by code_simp
  have h3: "cardStatus c2 = Some ''Scheduled (view)''"
    by (simp add: c2_def)
  have e1: "includesStr (normalize_str ''Scheduled (view)'') ''scheduled''"
    by code_simp
  have e2: "includesStr (normalize_str ''Scheduled (view)'') ''view''"
    by code_simp
  from status_precedence [OF h1 h2 h3] e1
  have "resolveScheduleForVisit exampleHost [c1, c2] ''PTA Visit'' ''02/17/2026'' = SCHEDULED"
    by simp
  with h1 h3 e2 show ?thesis
    unfolding c1_def c2_def by blast
qed

text \<open>
  Claim C1 as stated fails: a status text that contains \<open>missed\<close> and none of the three
  other words resolves to \<open>NOT_FOUND\<close>, not to a result for missed visits.
\<close>

theorem status_missed_counterexample:
  "includesStr (normalize_str ''Missed (Completed)'') ''missed''
   \<and> \<not> includesStr (normalize_str ''Missed (Completed)'') ''scheduled''
   \<and> \<not> includesStr (normalize_str ''Missed (Completed)'') ''incomplete''
   \<and> \<not> includesStr (normalize_str ''Missed (Completed)'') ''view''
   \<and> resolveScheduleForVisit exampleHost
        [\<lparr> cardType = Some ''Standard'', cardDate = Some ''2/17/2026'',
           cardDiscipline = Some ''PT'', cardTherapists = Some ''JESSICA DIAZ (PTA)'',
           cardStatus = Some ''Missed (Completed)'', cardTime = Some ''2:30 PM'',
           cardDetail = Some (''2:30 PM'', ''3:15 PM'') \<rparr>]
        ''PTA Visit'' ''02/17/2026'' = NOT_FOUND"
  by code_simp



text \<open>
  Claim C2, as the code has it. The matcher first checks its arguments: with an empty date
  or a task name that starts with \<open>del\<close> in any letter case it rejects the visit, whatever
  the cards. Past that guard it scans the cards in list order, and the first card that
  satisfies the type, date and discipline predicates decides the result; the cards after it
  play no part. A therapist hint never excludes that card: when the card has a therapist
  element the result is the same as without a hint, and the hint only adds a warning for
  that card when the therapist text does not contain the last word of the hint. When a
  hint is given and the card has no therapist element, reading it times out.
\<close>

theorem first_match_selection:
  "(date = [] \<or> startsWith (toLowerCase name) ''del'' \<longrightarrow>
      openVisitInSchedule J cards name date hint = ([], Inl (SkippedInvalidVisit name)))
   \<and> (date \<noteq> [] \<and> \<not> startsWith (toLowerCase name) ''del'' \<longrightarrow>
        (cards \<noteq> [] \<and> find (expectedCard J name date) cards = None \<longrightarrow>
           openVisitInSchedule J cards name date hint = ([], Inl (VisitNotFound name date)))
      \<and> (\<forall>c. find (expectedCard J name date) cards = Some c \<longrightarrow>
             (hintGiven hint \<and> cardTherapists c = None \<longrightarrow>
                openVisitInSchedule J cards name date hint = ([], Inl TimeoutError))
           \<and> (\<not> (hintGiven hint \<and> cardTherapists c = None) \<longrightarrow>
                snd (openVisitInSchedule J cards name date hint) = cardOutcome name date c
              \<and> snd (openVisitInSchedule J cards name date hint)
                  = snd (openVisitInSchedule J cards name date None)
              \<and> fst (openVisitInSchedule J cards name date hint) =
                  (case hint of
                     None \<Rightarrow> []
                   | Some h \<Rightarrow>
                       (case cardTherapists c of
                          None \<Rightarrow> []
                        | Some t \<Rightarrow>
                            if h \<noteq> [] \<and> therapistMismatch h t
                            then [length (takeWhile (\<lambda>c. \<not> expectedCard J name date c) cards)]
                            else [])))))"
proof -
  have guard: "date = [] \<or> startsWith (toLowerCase name) ''del'' \<Longrightarrow>
      openVisitInSchedule J cards name date hint = ([], Inl (SkippedInvalidVisit name))"
    by (simp add: openVisitInSchedule_outcome)
  have none: "openVisitInSchedule J cards name date hint = ([], Inl (VisitNotFound name date))"
    if "date \<noteq> []" "\<not> startsWith (toLowerCase name) ''del''" "cards \<noteq> []"
      "find (expectedCard J name date) cards = None"
    using that by (simp add: openVisitInSchedule_outcome)
  have some: "openVisitInSchedule J cards name date h' =
       (case therapistRead h' c (length (takeWhile (\<lambda>c. \<not> expectedCard J name date c) cards)) of
          None \<Rightarrow> ([], Inl TimeoutError)
        | Some warnings \<Rightarrow> (warnings, cardOutcome name date c))"
    if "date \<noteq> []" "\<not> startsWith (toLowerCase name) ''del''"
      "find (expectedCard J name date) cards = Some c" for c h'
  proof -
    from that(3) have "cards \<noteq> []" by auto
    with that show ?thesis by (simp add: openVisitInSchedule_outcome)
  qed
  have timeout: "openVisitInSchedule J cards name date hint = ([], Inl TimeoutError)"
    if "date \<noteq> []" "\<not> startsWith (toLowerCase name) ''del''"
      "find (expectedCard J name date) cards = Some c"
      "hintGiven hint" "cardTherapists c = None" for c
  proof -
    from that(4,5) have "therapistRead hint c
        (length (takeWhile (\<lambda>c. \<not> expectedCard J name date c) cards)) = None"
      by (simp add: therapistRead_None_iff)
    with some [OF that(1,2,3), of hint] show ?thesis by simp
  qed
  have read: "snd (openVisitInSchedule J cards name date hint) = cardOutcome name date c
      \<and> snd (openVisitInSchedule J cards name date hint)
          = snd (openVisitInSchedule J cards name date None)
      \<and> fst (openVisitInSchedule J cards name date hint) =
          (case hint of
             None \<Rightarrow> []
           | Some h \<Rightarrow>
               (case cardTherapists c of
                  None \<Rightarrow> []
                | Some t \<Rightarrow>
                    if h \<noteq> [] \<and> therapistMismatch h t
                    then [length (takeWhile (\<lambda>c. \<not> expectedCard J name date c) cards)]
                    else []))"
    if "date \<noteq> []" "\<not> startsWith (toLowerCase name) ''del''"
      "find (expectedCard J name date) cards = Some c"
      "\<not> (hintGiven hint \<and> cardTherapists c = None)" for c
  proof -
    from that(4) obtain ws where ws: "therapistRead hint c
        (length (takeWhile (\<lambda>c. \<not> expectedCard J name date c) cards)) = Some ws"
      using therapistRead_None_iff [of hint c] by blast
    from some [OF that(1,2,3), of hint] ws
    have a: "openVisitInSchedule J cards name date hint = (ws, cardOutcome name date c)"
      by simp
    from some [OF that(1,2,3), of None]
    have b: "openVisitInSchedule J cards name date None = ([], cardOutcome name date c)"
      by (simp add: therapistRead_no_hint)
    from a b therapistRead_Some [OF ws] show ?thesis by simp
  qed
  from guard none timeout read show ?thesis by blast
qed

text \<open>
  Three cards, of which the second and the third satisfy the predicates. The second is
  opened although its therapist is not the one of the hint, and the warning names it. When
  that card has no therapist element the read times out. No card has the date of the day
  after, and the task name \<open>Delayed Visit\<close> is rejected.
\<close>

theorem first_match_selection_witness:
  "openVisitInSchedule exampleHost
        [\<lparr> cardType = Some ''Standard'', cardDate = Some ''2/17/2026'',
           cardDiscipline = Some ''OT'', cardTherapists = Some ''BOB SMITH (COTA)'',
           cardStatus = Some ''Incomplete'', cardTime = Some ''9:00 AM'',
           cardDetail = Some (''9:00 AM'', ''9:45 AM'') \<rparr>,
         \<lparr> cardType = Some ''Standard'', cardDate = Some ''2/17/2026'',
           cardDiscipline = Some ''PT'', cardTherapists = Some ''MARIA LOPEZ (PT)'',
           cardStatus = Some ''Incomplete'', cardTime = Some ''2:30 PM'',
           cardDetail = Some (''2:30 PM'', ''3:15 PM'') \<rparr>,
         \<lparr> cardType = Some ''Standard'', cardDate = Some ''2/17/2026'',
           cardDiscipline = Some ''PT'', cardTherapists = Some ''JESSICA DIAZ (PTA)'',
           cardStatus = Some ''Scheduled'', cardTime = Some ''4:00 PM'',
           cardDetail = Some (''4:00 PM'', ''4:45 PM'') \<rparr>]
        ''PTA Visit'' ''02/17/2026'' (Some ''JESSICA DIAZ (PTA)'')
       = ([1], Inr \<lparr> timeIn = ''2:30 PM'', timeOut = ''3:15 PM'', documents = [],
                      siteBStatus = ''incomplete'' \<rparr>)
   \<and> openVisitInSchedule exampleHost
        [\<lparr> cardType = Some ''Standard'', cardDate = Some ''2/17/2026'',
           cardDiscipline = Some ''OT'', cardTherapists = Some ''BOB SMITH (COTA)'',
           cardStatus = Some ''Incomplete'', cardTime = Some ''9:00 AM'',
           cardDetail = Some (''9:00 AM'', ''9:45 AM'') \<rparr>,
         \<lparr> cardType = Some ''Standard'', cardDate = Some ''2/17/2026'',
           cardDiscipline = Some ''PT'', cardTherapists = None,
           cardStatus = Some ''Incomplete'', cardTime = Some ''2:30 PM'',
           cardDetail = Some (''2:30 PM'', ''3:15 PM'') \<rparr>]
        ''PTA Visit'' ''02/17/2026'' (Some ''JESSICA DIAZ (PTA)'')
       = ([], Inl TimeoutError)
   \<and> openVisitInSchedule exampleHost
        [\<lparr> cardType = Some ''Standard'', cardDate = Some ''2/17/2026'',
           cardDiscipline = Some ''OT'', cardTherapists = Some ''BOB SMITH (COTA)'',
           cardStatus = Some ''Incomplete'', cardTime = Some ''9:00 AM'',
           cardDetail = Some (''9:00 AM'', ''9:45 AM'') \<rparr>]
        ''PTA Visit'' ''02/18/2026'' (Some ''JESSICA DIAZ (PTA)'')
       = ([], Inl (VisitNotFound ''PTA Visit'' ''02/18/2026''))
   \<and> openVisitInSchedule exampleHost
        [\<lparr> cardType = Some ''Standard'', cardDate = Some ''2/17/2026'',
           cardDiscipline = Some ''OT'', cardTherapists = Some ''BOB SMITH (COTA)'',
           cardStatus = Some ''Incomplete'', cardTime = Some ''9:00 AM'',
           cardDetail = Some (''9:00 AM'', ''9:45 AM'') \<rparr>]
        ''Delayed Visit'' ''02/17/2026'' (Some ''JESSICA DIAZ (PTA)'')
       = ([], Inl (SkippedInvalidVisit ''Delayed Visit''))"
proof -
  define c1 where "c1 =
    \<lparr> cardType = Some ''Standard'', cardDate = Some ''2/17/2026'',
      cardDiscipline = Some ''OT'', cardTherapists = Some ''BOB SMITH (COTA)'',
      cardStatus = Some ''Incomplete'', cardTime = Some ''9:00 AM'',
      cardDetail = Some (''9:00 AM'', ''9:45 AM'') \<rparr>"
  define c2 where "c2 =
    \<lparr> cardType = Some ''Standard'', cardDate = Some ''2/17/2026'',
      cardDiscipline = Some ''PT'', cardTherapists = Some ''MARIA LOPEZ (PT)'',
      cardStatus = Some ''Incomplete'', cardTime = Some ''2:30 PM'',
      cardDetail = Some (''2:30 PM'', ''3:15 PM'') \<rparr>"
  define c3 where "c3 =
    \<lparr> cardType = Some ''Standard'', cardDate = Some ''2/17/2026'',
      cardDiscipline = Some ''PT'', cardTherapists = Some ''JESSICA DIAZ (PTA)'',
      cardStatus = Some ''Scheduled'', cardTime = Some ''4:00 PM'',
      cardDetail = Some (''4:00 PM'', ''4:45 PM'') \<rparr>"
  define c4 where "c4 =
    \<lparr> cardType = Some ''Standard'', cardDate = Some ''2/17/2026'',
      cardDiscipline = Some ''PT'', cardTherapists = None,
      cardStatus = Some ''Incomplete'', cardTime = Some ''2:30 PM'',
      cardDetail = Some (''2:30 PM'', ''3:15 PM'') \<rparr>"
  define hint where "hint = Some ''JESSICA DIAZ (PTA)''"
  define P where "P = expectedCard exampleHost ''PTA Visit'' ''02/17/2026''"
  define Q where "Q = expectedCard exampleHost ''PTA Visit'' ''02/18/2026''"
  have g: "''02/17/2026'' \<noteq> [] \<and> \<not> startsWith (toLowerCase ''PTA Visit'') ''del''"
    by code_simp
  have g': "''02/18/2026'' \<noteq> [] \<and> \<not> startsWith (toLowerCase ''PTA Visit'') ''del''"
    by code_simp
  have d: "startsWith (toLowerCase ''Delayed Visit'') ''del''"
    by code_simp
  have hg: "hintGiven hint"
    unfolding hint_def by code_simp
  have f: "find P [c1, c2, c3] = Some c2"
    unfolding P_def c1_def c2_def c3_def by code_simp
  have k: "length (takeWhile (\<lambda>c. \<not> P c) [c1, c2, c3]) = 1"
    unfolding P_def c1_def c2_def c3_def by code_simp
  have t2: "cardTherapists c2 = Some ''MARIA LOPEZ (PT)''"
    unfolding c2_def by simp
  have m: "therapistMismatch ''JESSICA DIAZ (PTA)'' ''MARIA LOPEZ (PT)''"
    by code_simp
  have r: "cardOutcome ''PTA Visit'' ''02/17/2026'' c2
             = Inr \<lparr> timeIn = ''2:30 PM'', timeOut = ''3:15 PM'', documents = [],
                      siteBStatus = ''incomplete'' \<rparr>"
    unfolding c2_def by code_simp
  have f4: "find P [c1, c4] = Some c4"
    unfolding P_def c1_def c4_def by code_simp
  have t4: "cardTherapists c4 = None"
    unfolding c4_def by simp
  have fq: "[c1] \<noteq> [] \<and> find Q [c1] = None"
    unfolding Q_def c1_def by code_simp
  note th1 = first_match_selection [of "''02/17/2026''" "''PTA Visit''" exampleHost
      "[c1, c2, c3]" hint, folded P_def]
  from th1 g f t2 have s: "snd (openVisitInSchedule exampleHost [c1, c2, c3] ''PTA Visit''
      ''02/17/2026'' hint) = cardOutcome ''PTA Visit'' ''02/17/2026'' c2"
    by simp
  from th1 g f t2 have "fst (openVisitInSchedule exampleHost [c1, c2, c3] ''PTA Visit''
      ''02/17/2026'' hint) =
        (case hint of
           None \<Rightarrow> []
         | Some h \<Rightarrow>
             (case cardTherapists c2 of
                None \<Rightarrow> []
              | Some t \<Rightarrow>
                  if h \<noteq> [] \<and> therapistMismatch h t
                  then [length (takeWhile (\<lambda>c. \<not> P c) [c1, c2, c3])]
                  else []))"
    by simp
  with k t2 m have w: "fst (openVisitInSchedule exampleHost [c1, c2, c3] ''PTA Visit''
      ''02/17/2026'' hint) = [1]"
    by (simp add: hint_def)
  from s w r have r1: "openVisitInSchedule exampleHost [c1, c2, c3] ''PTA Visit''
      ''02/17/2026'' hint
      = ([1], Inr \<lparr> timeIn = ''2:30 PM'', timeOut = ''3:15 PM'', documents = [],
                      siteBStatus = ''incomplete'' \<rparr>)"
    by (simp add: prod_eq_iff)
  note th2 = first_match_selection [of "''02/17/2026''" "''PTA Visit''" exampleHost
      "[c1, c4]" hint, folded P_def]
  from th2 g f4 t4 hg have r2: "openVisitInSchedule exampleHost [c1, c4] ''PTA Visit''
      ''02/17/2026'' hint = ([], Inl TimeoutError)"
    by blast
  note th3 = first_match_selection [of "''02/18/2026''" "''PTA Visit''" exampleHost
      "[c1]" hint, folded Q_def]
  from th3 g' fq have r3: "openVisitInSchedule exampleHost [c1] ''PTA Visit''
      ''02/18/2026'' hint = ([], Inl (VisitNotFound ''PTA Visit'' ''02/18/2026''))"
    by blast
  note th4 = first_match_selection [of "''02/17/2026''" "''Delayed Visit''" exampleHost
      "[c1]" hint]
  from th4 d have r4: "openVisitInSchedule exampleHost [c1] ''Delayed Visit''
      ''02/17/2026'' hint = ([], Inl (SkippedInvalidVisit ''Delayed Visit''))"
    by blast
  from r1 r2 r3 r4 show ?thesis
    unfolding c1_def c2_def c3_def c4_def hint_def by blast
qed

text \<open>
  Claim C2 as stated fails: for the task name \<open>Delayed Visit\<close> the second card satisfies the
  type, date and discipline predicates, and the matcher selects no card; it rejects the
  visit before it scans.
\<close>

theorem first_match_guard_counterexample:
  "find (expectedCard exampleHost ''Delayed Visit'' ''02/17/2026'')
     [\<lparr> cardType = Some ''Standard'', cardDate = Some ''2/17/2026'',
        cardDiscipline = Some ''OT'', cardTherapists = Some ''BOB SMITH (COTA)'',
        cardStatus = Some ''Incomplete'', cardTime = Some ''9:00 AM'',
        cardDetail = Some (''9:00 AM'', ''9:45 AM'') \<rparr>,
      \<lparr> cardType = Some ''Delayed Visit'', cardDate = Some ''2/17/2026'',
        cardDiscipline = Some ''PT'', cardTherapists = Some ''MARIA LOPEZ (PT)'',
        cardStatus = Some ''Incomplete'', cardTime = Some ''2:30 PM'',
        cardDetail = Some (''2:30 PM'', ''3:15 PM'') \<rparr>]
     = Some \<lparr> cardType = Some ''Delayed Visit'', cardDate = Some ''2/17/2026'',
        cardDiscipline = Some ''PT'', cardTherapists = Some ''MARIA LOPEZ (PT)'',
        cardStatus = Some ''Incomplete'', cardTime = Some ''2:30 PM'',
        cardDetail = Some (''2:30 PM'', ''3:15 PM'') \<rparr>
   \<and> openVisitInSchedule exampleHost
     [\<lparr> cardType = Some ''Standard'', cardDate = Some ''2/17/2026'',
        cardDiscipline = Some ''OT'', cardTherapists = Some ''BOB SMITH (COTA)'',
        cardStatus = Some ''Incomplete'', cardTime = Some ''9:00 AM'',
        cardDetail = Some (''9:00 AM'', ''9:45 AM'') \<rparr>,
      \<lparr> cardType = Some ''Delayed Visit'', cardDate = Some ''2/17/2026'',
        cardDiscipline = Some ''PT'', cardTherapists = Some ''MARIA LOPEZ (PT)'',
        cardStatus = Some ''Incomplete'', cardTime = Some ''2:30 PM'',
        cardDetail = Some (''2:30 PM'', ''3:15 PM'') \<rparr>]
     ''Delayed Visit'' ''02/17/2026'' (Some ''MARIA LOPEZ (PT)'')
     = ([], Inl (SkippedInvalidVisit ''Delayed Visit''))"
  by code_simp

text \<open>
  Claim C3, as the code has it. The matcher fails in four ways. It rejects its arguments
  (\<open>Skipped invalid visit\<close>) exactly when the date is empty or the task name starts with
  \<open>del\<close> in any letter case. Otherwise it fails with \<open>Visit not found\<close> exactly when the
  schedule has cards and none of them satisfies the predicates; with
  \<open>SKIP:no_scheduled_time\<close> exactly when the therapist text of the first card that
  satisfies them can be read, where a hint asks for it, and the time slot text of that
  card contains \<open>no scheduled\<close>; and with a timeout of the page exactly when the schedule
  shows no card, or a hint is given and the first card that satisfies the predicates has
  no therapist element, or that card has a scheduled time and its detail page does not
  show.
\<close>

theorem match_failures:
  "(snd (openVisitInSchedule J cards name date hint) = Inl (SkippedInvalidVisit name)
      \<longleftrightarrow> date = [] \<or> startsWith (toLowerCase name) ''del'')
   \<and> (date \<noteq> [] \<and> \<not> startsWith (toLowerCase name) ''del'' \<longrightarrow>
        (snd (openVisitInSchedule J cards name date hint) = Inl (VisitNotFound name date)
           \<longleftrightarrow> cards \<noteq> [] \<and> find (expectedCard J name date) cards = None)
      \<and> (snd (openVisitInSchedule J cards name date hint) = Inl (SkipNoScheduledTime name date)
           \<longleftrightarrow> (\<exists>c. find (expectedCard J name date) cards = Some c
                    \<and> \<not> (hintGiven hint \<and> cardTherapists c = None)
                    \<and> noScheduledTime c))
      \<and> (snd (openVisitInSchedule J cards name date hint) = Inl TimeoutError
           \<longleftrightarrow> cards = []
               \<or> (\<exists>c. find (expectedCard J name date) cards = Some c
                    \<and> ((hintGiven hint \<and> cardTherapists c = None)
                        \<or> (\<not> noScheduledTime c \<and> cardDetail c = None)))))
   \<and> (\<forall>e. snd (openVisitInSchedule J cards name date hint) = Inl e \<longrightarrow>
          e = SkippedInvalidVisit name \<or> e = VisitNotFound name date
          \<or> e = SkipNoScheduledTime name date \<or> e = TimeoutError)"
proof (cases "date = [] \<or> startsWith (toLowerCase name) ''del''")
  case True
  then have "openVisitInSchedule J cards name date hint = ([], Inl (SkippedInvalidVisit name))"
    by (simp add: openVisitInSchedule_outcome)
  with True show ?thesis by auto
next
  case guard: False
  show ?thesis
  proof (cases "cards = []")
    case True
    with guard have "openVisitInSchedule J cards name date hint = ([], Inl TimeoutError)"
      by (simp add: openVisitInSchedule_outcome)
    with guard True show ?thesis by simp
  next
    case cards: False
    show ?thesis
    proof (cases "find (expectedCard J name date) cards")
      case None
      with guard cards
      have "openVisitInSchedule J cards name date hint = ([], Inl (VisitNotFound name date))"
        by (simp add: openVisitInSchedule_outcome)
      with guard cards None show ?thesis by simp
    next
      case (Some c)
      show ?thesis
      proof (cases "hintGiven hint \<and> cardTherapists c = None")
        case True
        then have "therapistRead hint c
            (length (takeWhile (\<lambda>c. \<not> expectedCard J name date c) cards)) = None"
          by (simp add: therapistRead_None_iff)
        with guard cards Some
        have "openVisitInSchedule J cards name date hint = ([], Inl TimeoutError)"
          by (simp add: openVisitInSchedule_outcome)
        with guard cards Some True show ?thesis by simp
      next
        case False
        then obtain ws where "therapistRead hint c
            (length (takeWhile (\<lambda>c. \<not> expectedCard J name date c) cards)) = Some ws"
          using therapistRead_None_iff [of hint c] by blast
        with guard cards Some
        have "snd (openVisitInSchedule J cards name date hint) = cardOutcome name date c"
          by (simp add: openVisitInSchedule_outcome)
        with guard cards Some False show ?thesis
          by (auto simp: cardOutcome_def split: option.splits)
      qed
    qed
  qed
qed

text \<open>
  The four failures: a rejected task name, a schedule without cards, a date that no card
  has, a card without a scheduled time, and a card without a therapist element when a hint
  is given.
\<close>

theorem match_failures_witness:
  "openVisitInSchedule exampleHost
     [\<lparr> cardType = Some ''Standard'', cardDate = Some ''2/17/2026'',
        cardDiscipline = Some ''PT'', cardTherapists = None,
        cardStatus = Some ''Scheduled'', cardTime = Some ''No Scheduled Time'',
        cardDetail = None \<rparr>]
     ''Delayed Visit'' ''2/17/2026'' None = ([], Inl (SkippedInvalidVisit ''Delayed Visit''))
   \<and> snd (openVisitInSchedule exampleHost [] ''PTA Visit'' ''2/17/2026'' None)
       = Inl TimeoutError
   \<and> snd (openVisitInSchedule exampleHost
     [\<lparr> cardType = Some ''Standard'', cardDate = Some ''2/17/2026'',
        cardDiscipline = Some ''PT'', cardTherapists = None,
        cardStatus = Some ''Scheduled'', cardTime = Some ''No Scheduled Time'',
        cardDetail = None \<rparr>]
     ''PTA Visit'' ''2/18/2026'' None) = Inl (VisitNotFound ''PTA Visit'' ''2/18/2026'')
   \<and> snd (openVisitInSchedule exampleHost
     [\<lparr> cardType = Some ''Standard'', cardDate = Some ''2/17/2026'',
        cardDiscipline = Some ''PT'', cardTherapists = None,
        cardStatus = Some ''Scheduled'', cardTime = Some ''No Scheduled Time'',
        cardDetail = None \<rparr>]
     ''PTA Visit'' ''2/17/2026'' None) = Inl (SkipNoScheduledTime ''PTA Visit'' ''2/17/2026'')
   \<and> snd (openVisitInSchedule exampleHost
     [\<lparr> cardType = Some ''Standard'', cardDate = Some ''2/17/2026'',
        cardDiscipline = Some ''PT'', cardTherapists = None,
        cardStatus = Some ''Scheduled'', cardTime = Some ''No Scheduled Time'',
        cardDetail = None \<rparr>]
     ''PTA Visit'' ''2/17/2026'' (Some ''JESSICA DIAZ (PTA)'')) = Inl TimeoutError"
proof -
  define c where "c =
    \<lparr> cardType = Some ''Standard'', cardDate = Some ''2/17/2026'',
      cardDiscipline = Some ''PT'', cardTherapists = None,
      cardStatus = Some ''Scheduled'', cardTime = Some ''No Scheduled Time'',
      cardDetail = None \<rparr>"
  define hint where "hint = Some ''JESSICA DIAZ (PTA)''"
  have g0: "startsWith (toLowerCase ''Delayed Visit'') ''del''"
    by code_simp
  have g1: "''2/18/2026'' \<noteq> [] \<and> \<not> startsWith (toLowerCase ''PTA Visit'') ''del''"
    by code_simp
  have g2: "''2/17/2026'' \<noteq> [] \<and> \<not> startsWith (toLowerCase ''PTA Visit'') ''del''"
    by code_simp
  have f1: "[c] \<noteq> [] \<and> find (expectedCard exampleHost ''PTA Visit'' ''2/18/2026'') [c] = None"
    unfolding c_def by code_simp
  have f2: "find (expectedCard exampleHost ''PTA Visit'' ''2/17/2026'') [c] = Some c"
    unfolding c_def by code_simp
  have n: "noScheduledTime c"
    unfolding c_def by code_simp
  have h0: "\<not> hintGiven None"
    by code_simp
  have h1: "hintGiven hint \<and> cardTherapists c = None"
    unfolding hint_def c_def by code_simp
  have w: "fst (openVisitInSchedule exampleHost [c] ''Delayed Visit'' ''2/17/2026'' None) = []"
    unfolding c_def by code_simp
  from g0 match_failures [of exampleHost "[c]" "''Delayed Visit''" "''2/17/2026''" None]
  have "snd (openVisitInSchedule exampleHost [c] ''Delayed Visit'' ''2/17/2026'' None)
          = Inl (SkippedInvalidVisit ''Delayed Visit'')"
    by blast
  with w have r0: "openVisitInSchedule exampleHost [c] ''Delayed Visit'' ''2/17/2026'' None
          = ([], Inl (SkippedInvalidVisit ''Delayed Visit''))"
    by (simp add: prod_eq_iff)
  from g2 match_failures [of exampleHost "[]" "''PTA Visit''" "''2/17/2026''" None]
  have r1: "snd (openVisitInSchedule exampleHost [] ''PTA Visit'' ''2/17/2026'' None)
          = Inl TimeoutError"
    by blast
  from g1 f1 match_failures [of exampleHost "[c]" "''PTA Visit''" "''2/18/2026''" None]
  have r2: "snd (openVisitInSchedule exampleHost [c] ''PTA Visit'' ''2/18/2026'' None)
          = Inl (VisitNotFound ''PTA Visit'' ''2/18/2026'')"
    by blast
  from g2 f2 n h0 match_failures [of exampleHost "[c]" "''PTA Visit''" "''2/17/2026''" None]
  have r3: "snd (openVisitInSchedule exampleHost [c] ''PTA Visit'' ''2/17/2026'' None)
          = Inl (SkipNoScheduledTime ''PTA Visit'' ''2/17/2026'')"
    by blast
  from g2 f2 h1 match_failures [of exampleHost "[c]" "''PTA Visit''" "''2/17/2026''" hint]
  have r4: "snd (openVisitInSchedule exampleHost [c] ''PTA Visit'' ''2/17/2026'' hint)
          = Inl TimeoutError"
    by blast
  from r0 r1 r2 r3 r4 show ?thesis
    unfolding c_def hint_def by blast
qed

text \<open>
  Claim C3 as stated fails: for the task name \<open>Delayed Visit\<close> the only card satisfies the
  predicates and has a scheduled time, and the matcher fails all the same, with neither
  of the two errors of the claim.
\<close>

theorem match_failures_counterexample:
  "cardSatisfies exampleHost (expectedTypeOf ''Delayed Visit'')
     (expectedDisciplineOf ''Delayed Visit'') (normalizeDate exampleHost ''2/3/2026'')
     \<lparr> cardType = Some ''Delayed Visit'', cardDate = Some ''2/3/2026'',
       cardDiscipline = Some ''PT'', cardTherapists = Some ''JESSICA DIAZ (PTA)'',
       cardStatus = Some ''Scheduled'', cardTime = Some ''2:30 PM'',
       cardDetail = Some (''2:30 PM'', ''3:15 PM'') \<rparr>
   \<and> \<not> noScheduledTime
     \<lparr> cardType = Some ''Delayed Visit'', cardDate = Some ''2/3/2026'',
       cardDiscipline = Some ''PT'', cardTherapists = Some ''JESSICA DIAZ (PTA)'',
       cardStatus = Some ''Scheduled'', cardTime = Some ''2:30 PM'',
       cardDetail = Some (''2:30 PM'', ''3:15 PM'') \<rparr>
   \<and> openVisitInSchedule exampleHost
     [\<lparr> cardType = Some ''Delayed Visit'', cardDate = Some ''2/3/2026'',
        cardDiscipline = Some ''PT'', cardTherapists = Some ''JESSICA DIAZ (PTA)'',
        cardStatus = Some ''Scheduled'', cardTime = Some ''2:30 PM'',
        cardDetail = Some (''2:30 PM'', ''3:15 PM'') \<rparr>]
     ''Delayed Visit'' ''2/3/2026'' None
     = ([], Inl (SkippedInvalidVisit ''Delayed Visit''))"
  by code_simp


section \<open>Therapist selection\<close>

text \<open>
  Claim C4, at an input where the code departs from it. The hint \<open>ANN HANNIGAN (PT)\<close> has
  the last name \<open>hannigan\<close> and the first name \<open>ann\<close>. The option \<open>Hannigan, Bob\<close> scores 3:
  two for the last name and one for the first name, which the code looks for in the whole
  option text and finds inside \<open>hannigan\<close>, although the segment after the comma does not
  contain it. It ties with \<open>Hannigan, Ann\<close> and comes first, so it is selected. On the two
  examples of the specification the selection is the stated one.
\<close>

theorem therapist_first_name_anywhere:
  "selectTherapist ''ANN HANNIGAN (PT)''
     [\<lparr> optionText = ''Hannigan, Bob'', optionValue = Some ''101'' \<rparr>,
      \<lparr> optionText = ''Hannigan, Ann'', optionValue = Some ''102'' \<rparr>]
     = Some \<lparr> bestValue = Some ''101'', bestLabel = ''Hannigan, Bob'', bestScore = 3 \<rparr>
   \<and> lastNameOf ''ANN HANNIGAN (PT)'' = Some ''hannigan''
   \<and> firstNameOf ''ANN HANNIGAN (PT)'' = ''ann''
   \<and> splitChar (CHR '','') ''hannigan, bob'' = [''hannigan'', '' bob'']
   \<and> \<not> includesStr '' bob'' ''ann''
   \<and> optionScore (Some ''hannigan'') ''ann'' ''hannigan, bob'' = 3
   \<and> selectTherapist ''JESSICA DIAZ (PTA)''
     [\<lparr> optionText = ''Diaz, Jessica'', optionValue = Some ''1'' \<rparr>,
      \<lparr> optionText = ''Diaz, Juan'', optionValue = Some ''2'' \<rparr>,
      \<lparr> optionText = ''Santos, Jessica'', optionValue = Some ''3'' \<rparr>]
     = Some \<lparr> bestValue = Some ''1'', bestLabel = ''Diaz, Jessica'', bestScore = 3 \<rparr>
   \<and> selectTherapist ''JESSICA DIAZ (PTA)''
     [\<lparr> optionText = ''Rivera, Carlos'', optionValue = Some ''1'' \<rparr>] = None"
  by code_simp

section \<open>Deduplication of the Site A visits\<close>

lemma mapSet_keys_old: "k \<in> fst ` set m \<Longrightarrow> map fst (mapSet k v m) = map fst m"
  by (induction m) force+

lemma mapSet_keys_new: "k \<notin> fst ` set m \<Longrightarrow> map fst (mapSet k v m) = map fst m @ [k]"
  by (induction m) force+

lemma mapSet_keys:
  "map fst (mapSet k v m) = (if k \<in> set (map fst m) then map fst m else map fst m @ [k])"
  by (simp add: mapSet_keys_old mapSet_keys_new)

lemma mapSet_distinct: "distinct (map fst m) \<Longrightarrow> distinct (map fst (mapSet k v m))"
  by (simp add: mapSet_keys)

lemma mapSet_map_of: "map_of (mapSet k v m) = (map_of m)(k \<mapsto> v)"
  by (induction m) auto

lemma mapSet_entries: "set (mapSet k v m) \<subseteq> insert (k, v) (set m)"
  by (induction m) (auto split: if_splits)

lemma newMap_snoc: "newMap (es @ [(k, v)]) = mapSet k v (newMap es)"
  by (simp add: newMap_def)

lemma set_firstOccurrences: "set (firstOccurrences xs) = set xs"
  by (induction xs) auto

lemma firstOccurrences_snoc:
  "firstOccurrences (xs @ [x]) =
     (if x \<in> set xs then firstOccurrences xs else firstOccurrences xs @ [x])"
  by (induction xs) (auto simp: set_firstOccurrences)

lemma distinct_firstOccurrences: "distinct (firstOccurrences xs)"
  by (induction xs) (auto simp: distinct_removeAll)

lemma newMap_keys: "map fst (newMap es) = firstOccurrences (map fst es)"
proof (induction es rule: rev_induct)
  case Nil
  show ?case by (simp add: newMap_def)
next
  case (snoc e es)
  obtain k v where e: "e = (k, v)" by (cases e)
  have "set (map fst (newMap es)) = set (map fst es)"
    using snoc.IH by (simp add: set_firstOccurrences)
  then show ?case
    using snoc.IH unfolding e newMap_snoc mapSet_keys
    by (simp add: firstOccurrences_snoc)
qed

lemma newMap_map_of: "map_of (newMap es) = map_of (rev es)"
proof (induction es rule: rev_induct)
  case Nil
  show ?case by (simp add: newMap_def)
next
  case (snoc e es)
  obtain k v where e: "e = (k, v)" by (cases e)
  show ?case
    unfolding e newMap_snoc mapSet_map_of using snoc.IH by simp
qed

lemma newMap_entries: "set (newMap es) \<subseteq> set es"
proof (induction es rule: rev_induct)
  case Nil
  show ?case by (simp add: newMap_def)
next
  case (snoc e es)
  obtain k v where e: "e = (k, v)" by (cases e)
  show ?case
    unfolding e newMap_snoc using snoc.IH mapSet_entries [of k v "newMap es"] by auto
qed

lemma map_of_rev_keyed:
  "map_of (rev (map (\<lambda>v. (key v, v)) vs)) k = Some r \<Longrightarrow>
     key r = k \<and> r = last (filter (\<lambda>v. key v = k) vs)"
proof (induction vs rule: rev_induct)
  case Nil
  then show ?case by simp
next
  case (snoc x vs)
  then show ?case by (cases "key x = k") auto
qed

text \<open>
  Claim C8. Deduplication by the normalized visit key keeps exactly one record for each
  distinct key; the keys of the output are the keys of the input, each at the place of
  its first occurrence; and the record kept for a key is the last record of the input
  that has this key.
\<close>

theorem dedup_last_write_wins:
  "distinct (map (visitKey J) (uniqueVisits J visits))
   \<and> map (visitKey J) (uniqueVisits J visits) = firstOccurrences (map (visitKey J) visits)
   \<and> (\<forall>r \<in> set (uniqueVisits J visits).
         r = last (filter (\<lambda>v. visitKey J v = visitKey J r) visits))"
proof -
  define es where "es = map (\<lambda>v. (visitKey J v, v)) visits"
  have u: "uniqueVisits J visits = map snd (newMap es)"
    by (simp add: uniqueVisits_def es_def)
  have keyed: "k = visitKey J v" if "(k, v) \<in> set (newMap es)" for k v
    using that newMap_entries [of es] by (auto simp: es_def)
  have keys: "map (visitKey J) (uniqueVisits J visits) = map fst (newMap es)"
    unfolding u using keyed by (auto simp: comp_def)
  have fo: "map fst (newMap es) = firstOccurrences (map (visitKey J) visits)"
    by (simp add: newMap_keys es_def comp_def)
  have d: "distinct (map fst (newMap es))"
    by (simp add: newMap_keys distinct_firstOccurrences)
  have l: "r = last (filter (\<lambda>v. visitKey J v = visitKey J r) visits)"
    if "r \<in> set (uniqueVisits J visits)" for r
  proof -
    from that obtain k where kr: "(k, r) \<in> set (newMap es)"
      unfolding u by auto
    with d have "map_of (newMap es) k = Some r"
      by simp
    then have "map_of (rev (map (\<lambda>v. (visitKey J v, v)) visits)) k = Some r"
      by (simp add: newMap_map_of es_def)
    from map_of_rev_keyed [OF this]
    have "visitKey J r = k" and "r = last (filter (\<lambda>v. visitKey J v = k) visits)"
      by blast+
    then show ?thesis
      by blast
  qed
  from keys fo d l show ?thesis
    by simp
qed

text \<open>
  Three visits, the third a duplicate of the first under another spelling: the output has
  the third visit at the first place, followed by the second.
\<close>

theorem dedup_last_write_wins_witness:
  "uniqueVisits exampleHost
     [\<lparr> taskName = ''PT Visit'', therapist = ''Diaz, Jessica'', visitDate = ''2/3/2026'',
        targetDate = ''2/3/2026'', siteBVisitName = ''PT Visit'', rowIndex = 0,
        needsAction = True, actualVisitType = ''Other'' \<rparr>,
      \<lparr> taskName = ''OT Visit'', therapist = ''Smith, Bob'', visitDate = [],
        targetDate = ''2/4/2026'', siteBVisitName = ''OT Visit'', rowIndex = 1,
        needsAction = True, actualVisitType = ''Other'' \<rparr>,
      \<lparr> taskName = ''pt  visit'', therapist = ''Lopez, Maria'', visitDate = ''02/03/2026'',
        targetDate = ''02/03/2026'', siteBVisitName = ''pt visit'', rowIndex = 2,
        needsAction = True, actualVisitType = ''Other'' \<rparr>]
   = [\<lparr> taskName = ''pt  visit'', therapist = ''Lopez, Maria'', visitDate = ''02/03/2026'',
        targetDate = ''02/03/2026'', siteBVisitName = ''pt visit'', rowIndex = 2,
        needsAction = True, actualVisitType = ''Other'' \<rparr>,
      \<lparr> taskName = ''OT Visit'', therapist = ''Smith, Bob'', visitDate = [],
        targetDate = ''2/4/2026'', siteBVisitName = ''OT Visit'', rowIndex = 1,
        needsAction = True, actualVisitType = ''Other'' \<rparr>]
   \<and> map (visitKey exampleHost) (uniqueVisits exampleHost
     [\<lparr> taskName = ''PT Visit'', therapist = ''Diaz, Jessica'', visitDate = ''2/3/2026'',
        targetDate = ''2/3/2026'', siteBVisitName = ''PT Visit'', rowIndex = 0,
        needsAction = True, actualVisitType = ''Other'' \<rparr>,
      \<lparr> taskName = ''OT Visit'', therapist = ''Smith, Bob'', visitDate = [],
        targetDate = ''2/4/2026'', siteBVisitName = ''OT Visit'', rowIndex = 1,
        needsAction = True, actualVisitType = ''Other'' \<rparr>,
      \<lparr> taskName = ''pt  visit'', therapist = ''Lopez, Maria'', visitDate = ''02/03/2026'',
        targetDate = ''02/03/2026'', siteBVisitName = ''pt visit'', rowIndex = 2,
        needsAction = True, actualVisitType = ''Other'' \<rparr>])
     = [''pt visit|2026-02-03'', ''ot visit|2026-02-04'']"
proof -
  define v1 where "v1 =
    \<lparr> taskName = ''PT Visit'', therapist = ''Diaz, Jessica'', visitDate = ''2/3/2026'',
      targetDate = ''2/3/2026'', siteBVisitName = ''PT Visit'', rowIndex = 0,
      needsAction = True, actualVisitType = ''Other'' \<rparr>"
  define v2 where "v2 =
    \<lparr> taskName = ''OT Visit'', therapist = ''Smith, Bob'', visitDate = [],
      targetDate = ''2/4/2026'', siteBVisitName = ''OT Visit'', rowIndex = 1,
      needsAction = True, actualVisitType = ''Other'' \<rparr>"
  define v3 where "v3 =
    \<lparr> taskName = ''pt  visit'', therapist = ''Lopez, Maria'', visitDate = ''02/03/2026'',
      targetDate = ''02/03/2026'', siteBVisitName = ''pt visit'', rowIndex = 2,
      needsAction = True, actualVisitType = ''Other'' \<rparr>"
  define K where "K = visitKey exampleHost"
  have k1: "K v1 = ''pt visit|2026-02-03''"
    unfolding K_def v1_def by code_simp
  have k2: "K v2 = ''ot visit|2026-02-04''"
    unfolding K_def v2_def by code_simp
  have k3: "K v3 = ''pt visit|2026-02-03''"
    unfolding K_def v3_def by code_simp
  have ne: "''pt visit|2026-02-03'' \<noteq> ''ot visit|2026-02-04''"
    by simp
  note th = dedup_last_write_wins [of exampleHost "[v1, v2, v3]", folded K_def]
  from th have keys: "map K (uniqueVisits exampleHost [v1, v2, v3])
                        = firstOccurrences (map K [v1, v2, v3])"
    by blast
  also have "\<dots> = [''pt visit|2026-02-03'', ''ot visit|2026-02-04'']"
    using ne by (simp add: k1 k2 k3)
  finally have keys': "map K (uniqueVisits exampleHost [v1, v2, v3])
                        = [''pt visit|2026-02-03'', ''ot visit|2026-02-04'']" .
  then obtain a b where ab: "uniqueVisits exampleHost [v1, v2, v3] = [a, b]"
    and ka: "K a = ''pt visit|2026-02-03''" and kb: "K b = ''ot visit|2026-02-04''"
    by (auto simp: map_eq_Cons_conv)
  from th have "\<forall>r \<in> set (uniqueVisits exampleHost [v1, v2, v3]).
                   r = last (filter (\<lambda>v. K v = K r) [v1, v2, v3])"
    by blast
  then have "a = last (filter (\<lambda>v. K v = K a) [v1, v2, v3])"
    and "b = last (filter (\<lambda>v. K v = K b) [v1, v2, v3])"
    unfolding ab by simp_all
  with ne have "a = v3" and "b = v2"
    unfolding ka kb by (simp_all add: k1 k2 k3)
  with ab keys' show ?thesis
    unfolding K_def v1_def v2_def v3_def by simp
qed

section \<open>Missing visits\<close>






section \<open>The dedup key\<close>

lemma of_char_toLowerChar:
  "(of_char (toLowerChar c) :: nat) =
     (if (65 \<le> (of_char c :: nat) \<and> (of_char c :: nat) \<le> 90)
         \<or> (192 \<le> (of_char c :: nat) \<and> (of_char c :: nat) \<le> 222 \<and> (of_char c :: nat) \<noteq> 215)
      then of_char c + 32 else of_char c)"
proof -
  have "(of_char c + 32) mod 256 = (of_char c + 32 :: nat)" if "(of_char c :: nat) \<le> 222"
    using that by simp
  then show ?thesis
    by (auto simp: toLowerChar_def Let_def)
qed

lemma toLowerChar_whitespace [simp]: "isWhitespace (toLowerChar c) = isWhitespace c"
  unfolding isWhitespace_def of_char_toLowerChar by auto

lemma char_eq_by_code: "(of_char c :: nat) = of_char d \<Longrightarrow> c = d"
  by simp

lemma toLowerChar_space [simp]: "toLowerChar (CHR '' '') = CHR '' ''"
  by code_simp

lemma toLowerChar_nbsp_iff [simp]: "toLowerChar c = CHR 0xA0 \<longleftrightarrow> c = CHR 0xA0"
proof
  assume "toLowerChar c = CHR 0xA0"
  then have "(of_char (toLowerChar c) :: nat) = 160" by simp
  then have "(of_char c :: nat) = 160"
    unfolding of_char_toLowerChar by (auto split: if_splits)
  then have "(of_char c :: nat) = of_char (CHR 0xA0)" by simp
  then show "c = CHR 0xA0" by (rule char_eq_by_code)
next
  have "toLowerChar (CHR 0xA0) = CHR 0xA0" by code_simp
  moreover assume "c = CHR 0xA0"
  ultimately show "toLowerChar c = CHR 0xA0" by simp
qed


lemma toLowerCase_replaceWsRuns:
  "toLowerCase (replaceWsRuns b s) = replaceWsRuns b (toLowerCase s)"
  by (induction s arbitrary: b) (auto simp: toLowerCase_def)

lemma toLowerCase_replaceNbsp: "toLowerCase (replaceNbsp s) = replaceNbsp (toLowerCase s)"
  by (induction s) (auto simp: toLowerCase_def replaceNbsp_def)

lemma toLowerCase_dropWhile:
  "toLowerCase (dropWhile isWhitespace s) = dropWhile isWhitespace (toLowerCase s)"
  by (induction s) (auto simp: toLowerCase_def)

lemma toLowerCase_rev: "toLowerCase (rev s) = rev (toLowerCase s)"
  by (simp add: toLowerCase_def rev_map)

lemma toLowerCase_trim: "toLowerCase (trim s) = trim (toLowerCase s)"
  by (simp add: trim_def toLowerCase_rev toLowerCase_dropWhile)

lemma normalize_str_lower:
  "normalize_str s = trim (replaceNbsp (replaceWsRuns False (toLowerCase s)))"
  by (simp add: normalize_str_def toLowerCase_trim toLowerCase_replaceNbsp
      toLowerCase_replaceWsRuns)

lemma normalize_str_case: "toLowerCase t = toLowerCase t' \<Longrightarrow> normalize_str t = normalize_str t'"
  by (simp add: normalize_str_lower)

lemma replaceWsRuns_run:
  "w \<noteq> [] \<Longrightarrow> list_all isWhitespace w \<Longrightarrow>
     replaceWsRuns b (w @ r) = (if b then [] else '' '') @ replaceWsRuns True r"
proof (induction w arbitrary: b)
  case Nil
  then show ?case by simp
next
  case (Cons c w)
  show ?case
  proof (cases "w = []")
    case True
    with Cons.prems show ?thesis by simp
  next
    case False
    with Cons.prems Cons.IH [of True] show ?thesis by simp
  qed
qed

lemma replaceWsRuns_context:
  assumes "w \<noteq> []" "list_all isWhitespace w" "w' \<noteq> []" "list_all isWhitespace w'"
  shows "replaceWsRuns b (a @ w @ r) = replaceWsRuns b (a @ w' @ r)"
proof (induction a arbitrary: b)
  case Nil
  show ?case using assms by (simp add: replaceWsRuns_run)
next
  case (Cons c a)
  then show ?case by simp
qed

lemma normalize_str_whitespace:
  assumes "w \<noteq> []" "list_all isWhitespace w" "w' \<noteq> []" "list_all isWhitespace w'"
  shows "normalize_str (a @ w @ r) = normalize_str (a @ w' @ r)"
  by (simp add: normalize_str_def replaceWsRuns_context [OF assms])


lemma isDigit_not_whitespace: "isDigit c \<Longrightarrow> \<not> isWhitespace c"
  by (auto simp: isDigit_def isWhitespace_def)

lemma isDigit_not_slash: "isDigit c \<Longrightarrow> c \<noteq> CHR ''/''"
proof
  have "\<not> isDigit (CHR ''/'')" by code_simp
  moreover assume "isDigit c" and "c = CHR ''/''"
  ultimately show False by simp
qed

lemma digits_no_slash: "list_all isDigit ds \<Longrightarrow> CHR ''/'' \<notin> set ds"
  using isDigit_not_slash by (auto simp: list_all_iff)

lemma splitChar_no_sep: "sep \<notin> set a \<Longrightarrow> splitChar sep a = [a]"
  by (induction a) auto

lemma splitChar_append: "sep \<notin> set a \<Longrightarrow> splitChar sep (a @ sep # r) = a # splitChar sep r"
  by (induction a) auto

lemma dropWhile_whitespace_digits:
  "list_all isDigit ds \<Longrightarrow> dropWhile isWhitespace ds = ds"
  by (cases ds) (auto dest: isDigit_not_whitespace)

lemma trim_digits: "list_all isDigit ds \<Longrightarrow> trim ds = ds"
proof -
  assume d: "list_all isDigit ds"
  then have "list_all isDigit (rev ds)" by (simp add: list_all_iff)
  then have "dropWhile isWhitespace (rev ds) = rev ds"
    by (rule dropWhile_whitespace_digits)
  with d show ?thesis
    by (simp add: trim_def dropWhile_whitespace_digits)
qed

lemma safeDigits_short: "length ds \<le> 15 \<Longrightarrow> safeDigits ds"
  unfolding safeDigits_def
  using length_dropWhile_le [of "\<lambda>c. c = CHR ''0''" ds] by simp

lemma numberToString_safe:
  "list_all isDigit ds \<Longrightarrow> safeDigits ds \<Longrightarrow> numberToString J ds = showNat (digitsValue ds)"
  by (simp add: numberToString_def trim_digits)

lemma numberToString_digits:
  "list_all isDigit ds \<Longrightarrow> length ds \<le> 15 \<Longrightarrow> numberToString J ds = showNat (digitsValue ds)"
  by (simp add: numberToString_safe safeDigits_short)

lemma normalizeDateToISO_parts:
  assumes "CHR ''/'' \<notin> set mo" "CHR ''/'' \<notin> set da" "CHR ''/'' \<notin> set y"
  shows "normalizeDateToISO J (mo @ ''/'' @ da @ ''/'' @ y) =
           numberToString J y @ ''-'' @ padStart2 (numberToString J mo) @ ''-''
             @ padStart2 (numberToString J da)"
  using assms by (simp add: normalizeDateToISO_def splitChar_append splitChar_no_sep)

lemma normalizeDateToISO_same_value:
  assumes "list_all isDigit mo" "length mo \<le> 15" "list_all isDigit mo'" "length mo' \<le> 15"
    and "list_all isDigit da" "length da \<le> 15" "list_all isDigit da'" "length da' \<le> 15"
    and "CHR ''/'' \<notin> set y"
    and "digitsValue mo = digitsValue mo'" "digitsValue da = digitsValue da'"
  shows "normalizeDateToISO J (mo @ ''/'' @ da @ ''/'' @ y)
           = normalizeDateToISO J (mo' @ ''/'' @ da' @ ''/'' @ y)"
proof -
  have m: "numberToString J mo = numberToString J mo'"
    using assms by (simp add: numberToString_digits)
  have d: "numberToString J da = numberToString J da'"
    using assms by (simp add: numberToString_digits)
  have l: "normalizeDateToISO J (mo @ ''/'' @ da @ ''/'' @ y) =
           numberToString J y @ ''-'' @ padStart2 (numberToString J mo) @ ''-''
             @ padStart2 (numberToString J da)"
    using assms digits_no_slash by (intro normalizeDateToISO_parts) auto
  have r: "normalizeDateToISO J (mo' @ ''/'' @ da' @ ''/'' @ y) =
           numberToString J y @ ''-'' @ padStart2 (numberToString J mo') @ ''-''
             @ padStart2 (numberToString J da')"
    using assms digits_no_slash by (intro normalizeDateToISO_parts) auto
  show ?thesis
    unfolding l r m d ..
qed

text \<open>
  Claim C6. The key of a visit does not change when the task name changes in letter case
  only, when a run of whitespace inside the task name (non-breaking spaces included) is
  replaced by another run, or when the month and the day of the date are written with
  other digits of the same value, such as a leading zero: \<open>2/3/2026\<close> and \<open>02/03/2026\<close> give
  the same key.
\<close>

theorem visit_key_invariance:
  "(toLowerCase t = toLowerCase t' \<longrightarrow> normalizeVisitKey J t d = normalizeVisitKey J t' d)
   \<and> (w \<noteq> [] \<and> list_all isWhitespace w \<and> w' \<noteq> [] \<and> list_all isWhitespace w' \<longrightarrow>
        normalizeVisitKey J (a @ w @ b) d = normalizeVisitKey J (a @ w' @ b) d)
   \<and> (list_all isDigit mo \<and> length mo \<le> 15 \<and> list_all isDigit mo' \<and> length mo' \<le> 15
        \<and> list_all isDigit da \<and> length da \<le> 15 \<and> list_all isDigit da' \<and> length da' \<le> 15
        \<and> CHR ''/'' \<notin> set y
        \<and> digitsValue mo = digitsValue mo' \<and> digitsValue da = digitsValue da' \<longrightarrow>
        normalizeVisitKey J t (mo @ ''/'' @ da @ ''/'' @ y)
          = normalizeVisitKey J t (mo' @ ''/'' @ da' @ ''/'' @ y))"
proof -
  have c1: "toLowerCase t = toLowerCase t' \<longrightarrow>
              normalizeVisitKey J t d = normalizeVisitKey J t' d"
    using normalize_str_case [of t t'] by (simp add: normalizeVisitKey_def)
  have c2: "w \<noteq> [] \<and> list_all isWhitespace w \<and> w' \<noteq> [] \<and> list_all isWhitespace w' \<longrightarrow>
        normalizeVisitKey J (a @ w @ b) d = normalizeVisitKey J (a @ w' @ b) d"
    using normalize_str_whitespace [of w w' a b]
    by (simp add: normalizeVisitKey_def)
  have c3: "list_all isDigit mo \<and> length mo \<le> 15 \<and> list_all isDigit mo' \<and> length mo' \<le> 15
        \<and> list_all isDigit da \<and> length da \<le> 15 \<and> list_all isDigit da' \<and> length da' \<le> 15
        \<and> CHR ''/'' \<notin> set y
        \<and> digitsValue mo = digitsValue mo' \<and> digitsValue da = digitsValue da' \<longrightarrow>
        normalizeVisitKey J t (mo @ ''/'' @ da @ ''/'' @ y)
          = normalizeVisitKey J t (mo' @ ''/'' @ da' @ ''/'' @ y)"
    using normalizeDateToISO_same_value [of mo mo' da da' y J]
    by (simp add: normalizeVisitKey_def)
  from c1 c2 c3 show ?thesis by blast
qed

text \<open>
  The three invariances at the task name \<open>PTA Visit\<close> and the date \<open>2/3/2026\<close>.
\<close>

theorem visit_key_invariance_witness:
  "normalizeVisitKey exampleHost ''PTA Visit'' ''2/3/2026''
     = normalizeVisitKey exampleHost ''pta VISIT'' ''2/3/2026''
   \<and> normalizeVisitKey exampleHost (''PTA'' @ '' '' @ ''Visit'') ''2/3/2026''
     = normalizeVisitKey exampleHost (''PTA'' @ [CHR '' '', CHR 0xA0, CHR 0x09] @ ''Visit'')
         ''2/3/2026''
   \<and> normalizeVisitKey exampleHost ''PTA Visit'' (''2'' @ ''/'' @ ''3'' @ ''/'' @ ''2026'')
     = normalizeVisitKey exampleHost ''PTA Visit'' (''02'' @ ''/'' @ ''03'' @ ''/'' @ ''2026'')
   \<and> normalizeVisitKey exampleHost ''PTA Visit'' ''02/03/2026'' = ''pta visit|2026-02-03''"
proof -
  have h1: "toLowerCase ''PTA Visit'' = toLowerCase ''pta VISIT''"
    by code_simp
  have h2: "'' '' \<noteq> [] \<and> list_all isWhitespace '' ''
            \<and> [CHR '' '', CHR 0xA0, CHR 0x09] \<noteq> []
            \<and> list_all isWhitespace [CHR '' '', CHR 0xA0, CHR 0x09]"
    by code_simp
  have h3: "list_all isDigit ''2'' \<and> length ''2'' \<le> 15
            \<and> list_all isDigit ''02'' \<and> length ''02'' \<le> 15
            \<and> list_all isDigit ''3'' \<and> length ''3'' \<le> 15
            \<and> list_all isDigit ''03'' \<and> length ''03'' \<le> 15
            \<and> CHR ''/'' \<notin> set ''2026''
            \<and> digitsValue ''2'' = digitsValue ''02'' \<and> digitsValue ''3'' = digitsValue ''03''"
    by code_simp
  have e: "normalizeVisitKey exampleHost ''PTA Visit'' ''02/03/2026'' = ''pta visit|2026-02-03''"
    by code_simp
  note th = visit_key_invariance [of "''PTA Visit''" "''pta VISIT''" exampleHost "''2/3/2026''"
      "'' ''" "[CHR '' '', CHR 0xA0, CHR 0x09]" "''PTA''" "''Visit''"
      "''2''" "''02''" "''3''" "''03''" "''2026''"]
  from th h1 have r1: "normalizeVisitKey exampleHost ''PTA Visit'' ''2/3/2026''
     = normalizeVisitKey exampleHost ''pta VISIT'' ''2/3/2026''"
    by blast
  from th h2 have r2: "normalizeVisitKey exampleHost (''PTA'' @ '' '' @ ''Visit'') ''2/3/2026''
     = normalizeVisitKey exampleHost (''PTA'' @ [CHR '' '', CHR 0xA0, CHR 0x09] @ ''Visit'')
         ''2/3/2026''"
    by blast
  from th h3 have r3:
    "normalizeVisitKey exampleHost ''PTA Visit'' (''2'' @ ''/'' @ ''3'' @ ''/'' @ ''2026'')
     = normalizeVisitKey exampleHost ''PTA Visit'' (''02'' @ ''/'' @ ''03'' @ ''/'' @ ''2026'')"
    by blast
  from r1 r2 r3 e show ?thesis
    by blast
qed


section \<open>Conversion to the 24-hour clock\<close>

lemma toLowerChar_eq_a: "toLowerChar c = CHR ''a'' \<longleftrightarrow> c = CHR ''a'' \<or> c = CHR ''A''"
proof
  assume "toLowerChar c = CHR ''a''"
  then have "(of_char (toLowerChar c) :: nat) = 97" by simp
  then have "(of_char c :: nat) = 97 \<or> (of_char c :: nat) = 65"
    unfolding of_char_toLowerChar by (auto split: if_splits)
  then have "(of_char c :: nat) = of_char (CHR ''a'') \<or> (of_char c :: nat) = of_char (CHR ''A'')"
    by simp
  then show "c = CHR ''a'' \<or> c = CHR ''A''"
    using char_eq_by_code by blast
next
  have "toLowerChar (CHR ''a'') = CHR ''a''" "toLowerChar (CHR ''A'') = CHR ''a''"
    by code_simp+
  moreover assume "c = CHR ''a'' \<or> c = CHR ''A''"
  ultimately show "toLowerChar c = CHR ''a''" by auto
qed

lemma toLowerChar_eq_p: "toLowerChar c = CHR ''p'' \<longleftrightarrow> c = CHR ''p'' \<or> c = CHR ''P''"
proof
  assume "toLowerChar c = CHR ''p''"
  then have "(of_char (toLowerChar c) :: nat) = 112" by simp
  then have "(of_char c :: nat) = 112 \<or> (of_char c :: nat) = 80"
    unfolding of_char_toLowerChar by (auto split: if_splits)
  then have "(of_char c :: nat) = of_char (CHR ''p'') \<or> (of_char c :: nat) = of_char (CHR ''P'')"
    by simp
  then show "c = CHR ''p'' \<or> c = CHR ''P''"
    using char_eq_by_code by blast
next
  have "toLowerChar (CHR ''p'') = CHR ''p''" "toLowerChar (CHR ''P'') = CHR ''p''"
    by code_simp+
  moreover assume "c = CHR ''p'' \<or> c = CHR ''P''"
  ultimately show "toLowerChar c = CHR ''p''" by auto
qed

lemma toLowerChar_eq_m: "toLowerChar c = CHR ''m'' \<longleftrightarrow> c = CHR ''m'' \<or> c = CHR ''M''"
proof
  assume "toLowerChar c = CHR ''m''"
  then have "(of_char (toLowerChar c) :: nat) = 109" by simp
  then have "(of_char c :: nat) = 109 \<or> (of_char c :: nat) = 77"
    unfolding of_char_toLowerChar by (auto split: if_splits)
  then have "(of_char c :: nat) = of_char (CHR ''m'') \<or> (of_char c :: nat) = of_char (CHR ''M'')"
    by simp
  then show "c = CHR ''m'' \<or> c = CHR ''M''"
    using char_eq_by_code by blast
next
  have "toLowerChar (CHR ''m'') = CHR ''m''" "toLowerChar (CHR ''M'') = CHR ''m''"
    by code_simp+
  moreover assume "c = CHR ''m'' \<or> c = CHR ''M''"
  ultimately show "toLowerChar c = CHR ''m''" by auto
qed

lemma matchAmPm_Some_iff:
  "matchAmPm x = Some ap \<longleftrightarrow> ap \<in> set (AM_forms @ PM_forms) \<and> (\<exists>rest. x = ap @ rest)"
proof (cases x)
  case Nil
  then show ?thesis by (auto simp: AM_forms_def PM_forms_def)
next
  case (Cons a y)
  show ?thesis
  proof (cases y)
    case Nil
    with Cons show ?thesis by (auto simp: AM_forms_def PM_forms_def)
  next
    case (Cons m rest)
    show ?thesis
      unfolding \<open>x = a # y\<close> Cons
      by (auto simp: toLowerChar_eq_a toLowerChar_eq_p toLowerChar_eq_m
          AM_forms_def PM_forms_def)
  qed
qed

lemma forms_first_char:
  "ap \<in> set (AM_forms @ PM_forms) \<Longrightarrow>
     ap \<noteq> [] \<and> \<not> isDigit (hd ap) \<and> \<not> isWhitespace (hd ap) \<and> hd ap \<noteq> CHR '':''"
proof -
  have "list_all (\<lambda>ap. ap \<noteq> [] \<and> \<not> isDigit (hd ap) \<and> \<not> isWhitespace (hd ap)
           \<and> hd ap \<noteq> CHR '':'') (AM_forms @ PM_forms)"
    by code_simp
  then show "ap \<in> set (AM_forms @ PM_forms) \<Longrightarrow>
     ap \<noteq> [] \<and> \<not> isDigit (hd ap) \<and> \<not> isWhitespace (hd ap) \<and> hd ap \<noteq> CHR '':''"
    unfolding list_all_iff by blast
qed

lemma forms_upper:
  "ap \<in> set (AM_forms @ PM_forms) \<Longrightarrow>
     (toUpperCase ap = ''PM'' \<longleftrightarrow> ap \<in> set PM_forms)
     \<and> (toUpperCase ap = ''AM'' \<longleftrightarrow> ap \<notin> set PM_forms)"
proof -
  have "list_all (\<lambda>ap. (toUpperCase ap = ''PM'' \<longleftrightarrow> ap \<in> set PM_forms)
     \<and> (toUpperCase ap = ''AM'' \<longleftrightarrow> ap \<notin> set PM_forms)) (AM_forms @ PM_forms)"
    by code_simp
  then show "ap \<in> set (AM_forms @ PM_forms) \<Longrightarrow>
     (toUpperCase ap = ''PM'' \<longleftrightarrow> ap \<in> set PM_forms)
     \<and> (toUpperCase ap = ''AM'' \<longleftrightarrow> ap \<notin> set PM_forms)"
    unfolding list_all_iff by blast
qed

lemma takeWhile_run:
  "list_all P xs \<Longrightarrow> ys = [] \<or> \<not> P (hd ys) \<Longrightarrow> takeWhile P (xs @ ys) = xs"
  by (cases ys) (auto simp: list_all_iff takeWhile_append2)

lemma dropWhile_run:
  "list_all P xs \<Longrightarrow> ys = [] \<or> \<not> P (hd ys) \<Longrightarrow> dropWhile P (xs @ ys) = ys"
  by (cases ys) (auto simp: list_all_iff dropWhile_append2)

lemma after_whitespace:
  assumes "list_all isWhitespace ws" "ap \<in> set (AM_forms @ PM_forms)"
  shows "dropWhile isWhitespace (ws @ ap @ rest) = ap @ rest"
    and "ws @ ap @ rest \<noteq> []"
    and "\<not> isDigit (hd (ws @ ap @ rest))"
    and "hd (ws @ ap @ rest) \<noteq> CHR '':''"
proof -
  from forms_first_char [OF assms(2)]
  have ap: "ap \<noteq> []" "\<not> isDigit (hd ap)" "\<not> isWhitespace (hd ap)" "hd ap \<noteq> CHR '':''"
    by simp_all
  then have "\<not> isWhitespace (hd (ap @ rest))" by simp
  with assms(1) show "dropWhile isWhitespace (ws @ ap @ rest) = ap @ rest"
    by (intro dropWhile_run) simp_all
  from ap show "ws @ ap @ rest \<noteq> []" by simp
  have colon: "\<not> isWhitespace (CHR '':'')" by code_simp
  show "\<not> isDigit (hd (ws @ ap @ rest))"
  proof (cases ws)
    case Nil
    with ap show ?thesis by simp
  next
    case (Cons c cs)
    with assms(1) have "isWhitespace c" by simp
    then have "\<not> isDigit c" using isDigit_not_whitespace by blast
    with Cons show ?thesis by simp
  qed
  show "hd (ws @ ap @ rest) \<noteq> CHR '':''"
  proof (cases ws)
    case Nil
    with ap show ?thesis by simp
  next
    case (Cons c cs)
    with assms(1) have "isWhitespace c" by simp
    with colon have "c \<noteq> CHR '':''" by auto
    with Cons show ?thesis by simp
  qed
qed

lemma matchTimeAt_hour:
  assumes "hs \<noteq> []" "list_all isDigit hs" "list_all isWhitespace ws"
    "ap \<in> set (AM_forms @ PM_forms)"
  shows "matchTimeAt (hs @ ws @ ap @ rest) = Some (hs, None, ap)"
proof -
  let ?r = "ws @ ap @ rest"
  note aw = after_whitespace [OF assms(3,4), of rest]
  have t: "takeWhile isDigit (hs @ ?r) = hs" and d: "dropWhile isDigit (hs @ ?r) = ?r"
    using assms(2) aw(3) by (simp_all add: takeWhile_run dropWhile_run)
  obtain c r' where r: "?r = c # r'" and c: "c \<noteq> CHR '':''"
    using aw(2,4) by (cases ?r) auto
  have m: "matchAmPm (dropWhile isWhitespace ?r) = Some ap"
    unfolding aw(1) using assms(4) by (simp add: matchAmPm_Some_iff)
  show ?thesis
    unfolding matchTimeAt_def t d Let_def using assms(1) m c
    by (simp add: r)
qed

lemma matchTimeAt_hour_minute:
  assumes "hs \<noteq> []" "list_all isDigit hs" "ms \<noteq> []" "list_all isDigit ms"
    "list_all isWhitespace ws" "ap \<in> set (AM_forms @ PM_forms)"
  shows "matchTimeAt (hs @ '':'' @ ms @ ws @ ap @ rest) = Some (hs, Some ms, ap)"
proof -
  let ?r = "ws @ ap @ rest"
  note aw = after_whitespace [OF assms(5,6), of rest]
  have nd: "\<not> isDigit (CHR '':'')" by code_simp
  have t: "takeWhile isDigit (hs @ CHR '':'' # ms @ ?r) = hs"
    and d: "dropWhile isDigit (hs @ CHR '':'' # ms @ ?r) = CHR '':'' # ms @ ?r"
    using assms(2) nd by (simp_all add: takeWhile_run dropWhile_run)
  have t2: "takeWhile isDigit (ms @ ?r) = ms" and d2: "dropWhile isDigit (ms @ ?r) = ?r"
    using assms(4) aw(3) by (simp_all add: takeWhile_run dropWhile_run)
  have m: "matchAmPm (dropWhile isWhitespace ?r) = Some ap"
    unfolding aw(1) using assms(6) by (simp add: matchAmPm_Some_iff)
  have "matchTimeAt (hs @ CHR '':'' # ms @ ?r) = Some (hs, Some ms, ap)"
    unfolding matchTimeAt_def t d Let_def using assms(1,3) m
    by (simp add: t2 d2)
  then show ?thesis by simp
qed

lemma matchTime_at_start: "matchTimeAt s = Some m \<Longrightarrow> matchTime s = Some m"
  by (cases s) (auto simp: matchTimeAt_def)

lemma matchTime_somewhere:
  "matchTime s = Some m \<Longrightarrow> \<exists>pre t. s = pre @ t \<and> matchTimeAt t = Some m"
proof (induction s)
  case Nil
  then show ?case by simp
next
  case (Cons c cs)
  show ?case
  proof (cases "matchTimeAt (c # cs)")
    case None
    with Cons.prems have "matchTime cs = Some m" by simp
    from Cons.IH [OF this] obtain pre t where "cs = pre @ t" "matchTimeAt t = Some m"
      by blast
    then have "c # cs = (c # pre) @ t \<and> matchTimeAt t = Some m" by simp
    then show ?thesis by blast
  next
    case (Some m')
    with Cons.prems have "m' = m" by simp
    with Some have "c # cs = [] @ (c # cs) \<and> matchTimeAt (c # cs) = Some m" by simp
    then show ?thesis by blast
  qed
qed

lemma matchTimeAt_shape:
  assumes "matchTimeAt t = Some (hs, mo, ap)"
  shows "\<exists>mid ws rest. t = hs @ mid @ ws @ ap @ rest \<and> hs \<noteq> [] \<and> list_all isDigit hs
           \<and> (mid = [] \<or> (\<exists>ms. mid = CHR '':'' # ms \<and> ms \<noteq> [] \<and> list_all isDigit ms))
           \<and> list_all isWhitespace ws \<and> ap \<in> set (AM_forms @ PM_forms)"
proof -
  define r where "r = dropWhile isDigit t"
  have hs: "hs = takeWhile isDigit t" and ne: "hs \<noteq> []"
    using assms by (auto simp: matchTimeAt_def Let_def split: if_splits list.splits option.splits)
  have t: "t = hs @ r"
    unfolding hs r_def by simp
  have dig: "list_all isDigit hs"
    unfolding hs list_all_iff using set_takeWhileD by fastforce
  have ws_split: "x = takeWhile isWhitespace x @ dropWhile isWhitespace x
                  \<and> list_all isWhitespace (takeWhile isWhitespace x)" for x
    unfolding list_all_iff using set_takeWhileD by fastforce
  from assms obtain c r' where r: "r = c # r'"
    unfolding r_def by (auto simp: matchTimeAt_def Let_def split: if_splits list.splits)
  show ?thesis
  proof (cases "c = CHR '':'' \<and> takeWhile isDigit r' \<noteq> []")
    case True
    define ms where "ms = takeWhile isDigit r'"
    define x where "x = dropWhile isDigit r'"
    have r': "r' = ms @ x" unfolding ms_def x_def by simp
    have msd: "ms \<noteq> []" "list_all isDigit ms"
      using True unfolding ms_def list_all_iff using set_takeWhileD by fastforce+
    from assms True have "matchAmPm (dropWhile isWhitespace x) = Some ap"
      unfolding x_def
      by (auto simp: matchTimeAt_def Let_def r_def [symmetric] r split: if_splits option.splits)
    then obtain rest where ap: "ap \<in> set (AM_forms @ PM_forms)"
      and rest: "dropWhile isWhitespace x = ap @ rest"
      unfolding matchAmPm_Some_iff by blast
    have "t = hs @ (CHR '':'' # ms) @ takeWhile isWhitespace x @ ap @ rest"
      unfolding t r r' using True rest ws_split [of x] by simp
    with ne dig msd ap ws_split [of x] show ?thesis by blast
  next
    case False
    from assms False have "matchAmPm (dropWhile isWhitespace r) = Some ap"
      by (auto simp: matchTimeAt_def Let_def r_def [symmetric] r split: if_splits option.splits)
    then obtain rest where ap: "ap \<in> set (AM_forms @ PM_forms)"
      and rest: "dropWhile isWhitespace r = ap @ rest"
      unfolding matchAmPm_Some_iff by blast
    have "t = hs @ [] @ takeWhile isWhitespace r @ ap @ rest"
      unfolding t using rest ws_split [of r] by simp
    with ne dig ap ws_split [of r] show ?thesis by blast
  qed
qed

lemma toLowerChar_digit: "isDigit c \<Longrightarrow> toLowerChar c = c"
  by (simp add: toLowerChar_def isDigit_def Let_def)

lemma toLowerCase_digits: "list_all isDigit ds \<Longrightarrow> toLowerCase ds = ds"
  by (induction ds) (simp_all add: toLowerCase_def toLowerChar_digit)

lemma digits_not_hex_prefix: "list_all isDigit ds \<Longrightarrow> \<not> startsWith ds ''0x''"
proof
  have nx: "\<not> isDigit (CHR ''x'')" by code_simp
  assume d: "list_all isDigit ds" and "startsWith ds ''0x''"
  then have "take (length ''0x'') ds = ''0x''" by (simp only: startsWith_def)
  then have "set ''0x'' \<subseteq> set ds" by (metis set_take_subset)
  then have "CHR ''x'' \<in> set ds" by simp
  with d nx show False by (simp add: list_all_iff)
qed

lemma parseIntDigits_digits:
  assumes "ds \<noteq> []" "list_all isDigit ds"
  shows "parseIntDigits ds = (if safeDigits ds then Some (digitsValue ds) else None)"
proof -
  have t: "dropWhile isWhitespace ds = ds"
    using assms(2) by (rule dropWhile_whitespace_digits)
  have k: "takeWhile isDigit ds = ds"
    using assms(2) by (simp add: list_all_iff)
  show ?thesis
    unfolding parseIntDigits_def t Let_def k
    using assms by (simp add: toLowerCase_digits digits_not_hex_prefix)
qed

lemma convertTo24h_matched:
  assumes "matchTime s = Some (hs, mo, ap)" and "timeParts hs mo ws ap"
  shows "convertTo24h J s = clockText J hs mo ap"
proof -
  from assms(2) have hs: "hs \<noteq> []" "list_all isDigit hs"
    and ap: "ap \<in> set (AM_forms @ PM_forms)"
    and mo: "\<And>ms. mo = Some ms \<Longrightarrow> ms \<noteq> [] \<and> list_all isDigit ms"
    by (simp_all add: timeParts_def)
  note up = forms_upper [OF ap]
  have h: "parseIntDigits hs = (if safeDigits hs then Some (digitsValue hs) else None)"
    using hs by (rule parseIntDigits_digits)
  have hr: "(let hour1 = (if toUpperCase ap = ''PM'' \<and> digitsValue hs < 12
                          then digitsValue hs + 12 else digitsValue hs);
                 hour2 = (if toUpperCase ap = ''AM'' \<and> hour1 = 12 then 0 else hour1)
             in showNat hour2) = showNat (hour24 (ap \<in> set PM_forms) (digitsValue hs))"
    using up by (auto simp: hour24_def Let_def)
  have m: "(case mo of None \<Rightarrow> ''0''
            | Some ms \<Rightarrow> if ms = [] then ''0'' else parseIntToString J ms)
           = (case mo of None \<Rightarrow> ''0''
              | Some ms \<Rightarrow> if safeDigits ms then showNat (digitsValue ms)
                          else parseIntString J ms)"
    using mo by (auto simp: parseIntToString_def parseIntDigits_digits split: option.splits)
  show ?thesis
  proof (cases "safeDigits hs")
    case True
    with h have "parseIntDigits hs = Some (digitsValue hs)" by simp
    with hr m True show ?thesis
      unfolding convertTo24h_def assms(1) clockText_def by simp
  next
    case False
    with h have "parseIntDigits hs = None" by simp
    with m False show ?thesis
      unfolding convertTo24h_def assms(1) clockText_def by simp
  qed
qed

lemma matchTimeAt_timeText:
  assumes "timeParts hs mo ws ap"
  shows "matchTimeAt (timeText hs mo ws ap @ rest) = Some (hs, mo, ap)"
proof (cases mo)
  case None
  with assms matchTimeAt_hour [of hs ws ap rest] show ?thesis
    by (simp add: timeParts_def timeText_def)
next
  case (Some ms)
  with assms matchTimeAt_hour_minute [of hs ms ws ap rest] show ?thesis
    by (simp add: timeParts_def timeText_def)
qed

lemma matchTimeAt_is_timeText:
  assumes "matchTimeAt t = Some (hs, mo, ap)"
  shows "\<exists>ws rest. timeParts hs mo ws ap \<and> t = timeText hs mo ws ap @ rest"
proof -
  from matchTimeAt_shape [OF assms] obtain mid ws rest
    where t: "t = hs @ mid @ ws @ ap @ rest" and hs: "hs \<noteq> []" "list_all isDigit hs"
      and mid: "mid = [] \<or> (\<exists>ms. mid = CHR '':'' # ms \<and> ms \<noteq> [] \<and> list_all isDigit ms)"
      and ws: "list_all isWhitespace ws" and ap: "ap \<in> set (AM_forms @ PM_forms)"
    by blast
  have m: "matchTimeAt (timeText hs mo' ws ap @ rest) = Some (hs, mo', ap)"
    if "timeParts hs mo' ws ap" for mo'
    using that by (rule matchTimeAt_timeText)
  from mid show ?thesis
  proof
    assume "mid = []"
    with t have t': "t = timeText hs None ws ap @ rest" by (simp add: timeText_def)
    from hs ws ap have p: "timeParts hs None ws ap" by (simp add: timeParts_def)
    from m [OF p] assms t' have "mo = None" by simp
    with p t' show ?thesis by blast
  next
    assume "\<exists>ms. mid = CHR '':'' # ms \<and> ms \<noteq> [] \<and> list_all isDigit ms"
    then obtain ms where ms: "mid = CHR '':'' # ms" "ms \<noteq> []" "list_all isDigit ms"
      by blast
    with t have t': "t = timeText hs (Some ms) ws ap @ rest" by (simp add: timeText_def)
    from hs ms ws ap have p: "timeParts hs (Some ms) ws ap" by (simp add: timeParts_def)
    from m [OF p] assms t' have "mo = Some ms" by simp
    with p t' show ?thesis by blast
  qed
qed

lemma matchTime_skip:
  "(\<forall>p q. pre = p @ q \<and> q \<noteq> [] \<longrightarrow> matchTimeAt (q @ t) = None) \<Longrightarrow>
   matchTime (pre @ t) = matchTime t"
proof (induction pre)
  case Nil
  show ?case by simp
next
  case (Cons c pre)
  from Cons.prems have "c # pre = [] @ (c # pre) \<and> c # pre \<noteq> []
      \<longrightarrow> matchTimeAt ((c # pre) @ t) = None"
    by blast
  then have here: "matchTimeAt (c # pre @ t) = None" by simp
  have "\<forall>p q. pre = p @ q \<and> q \<noteq> [] \<longrightarrow> matchTimeAt (q @ t) = None"
  proof (intro allI impI)
    fix p q
    assume "pre = p @ q \<and> q \<noteq> []"
    then have "c # pre = (c # p) @ q \<and> q \<noteq> []" by simp
    with Cons.prems show "matchTimeAt (q @ t) = None" by blast
  qed
  from Cons.IH [OF this] here show ?case by simp
qed

lemma timeText_starts_with_digit:
  assumes "timeParts hs mo ws ap" and "x = timeText hs mo ws ap @ rest"
  shows "x \<noteq> [] \<and> isDigit (hd x)"
proof -
  from assms(1) obtain c cs where hs: "hs = c # cs" and "isDigit c"
    by (cases hs) (auto simp: timeParts_def)
  with assms(2) show ?thesis by (simp add: timeText_def)
qed

lemma no_time_before:
  assumes "list_all (\<lambda>c. \<not> isDigit c) pre"
  shows "\<forall>p q. pre = p @ q \<and> q \<noteq> [] \<longrightarrow>
           \<not> (\<exists>hs' mo' ws' ap' rest'. timeParts hs' mo' ws' ap'
                 \<and> q @ t = timeText hs' mo' ws' ap' @ rest')"
proof (intro allI impI notI)
  fix p q
  assume pq: "pre = p @ q \<and> q \<noteq> []"
  assume "\<exists>hs' mo' ws' ap' rest'. timeParts hs' mo' ws' ap'
            \<and> q @ t = timeText hs' mo' ws' ap' @ rest'"
  then obtain hs' mo' ws' ap' rest' where "timeParts hs' mo' ws' ap'"
    and "q @ t = timeText hs' mo' ws' ap' @ rest'"
    by blast
  from timeText_starts_with_digit [OF this] have "isDigit (hd (q @ t))" by simp
  with pq have "isDigit (hd q)" by simp
  moreover from pq have "hd q \<in> set pre" by (cases q) auto
  ultimately show False using assms by (simp add: list_all_iff)
qed

lemma no_time_without_digit:
  assumes "list_all (\<lambda>c. \<not> isDigit c) s"
  shows "\<not> (\<exists>pre hs mo ws ap rest. timeParts hs mo ws ap
               \<and> s = pre @ timeText hs mo ws ap @ rest)"
proof
  assume "\<exists>pre hs mo ws ap rest. timeParts hs mo ws ap
               \<and> s = pre @ timeText hs mo ws ap @ rest"
  then obtain pre hs mo ws ap rest where p: "timeParts hs mo ws ap"
    and s: "s = pre @ timeText hs mo ws ap @ rest"
    by blast
  from timeText_starts_with_digit [OF p refl, of rest]
  have "timeText hs mo ws ap @ rest \<noteq> []" "isDigit (hd (timeText hs mo ws ap @ rest))"
    by simp_all
  then have "hd (timeText hs mo ws ap @ rest) \<in> set s"
    unfolding s by (metis UnCI hd_in_set set_append)
  with \<open>isDigit (hd (timeText hs mo ws ap @ rest))\<close> assms show False
    by (auto simp: list_all_iff)
qed

text \<open>
  Claim C9. \<open>convertTo24h\<close> converts the first time that is written in its argument as an
  hour, optionally a colon and minutes, optional whitespace and AM or PM in any letter
  case: where no such time starts at an earlier position, it returns the hour on the
  24-hour clock and the minutes, each padded to two digits. On a string that contains no
  such time it returns \<open>00:00\<close>. The function is total: it returns a string on every
  input.
\<close>

theorem convertTo24h_parses:
  "(timeParts hs mo ws ap
      \<and> (\<forall>p q. pre = p @ q \<and> q \<noteq> [] \<longrightarrow>
             \<not> (\<exists>hs' mo' ws' ap' rest'. timeParts hs' mo' ws' ap'
                   \<and> q @ timeText hs mo ws ap @ rest = timeText hs' mo' ws' ap' @ rest')) \<longrightarrow>
      convertTo24h J (pre @ timeText hs mo ws ap @ rest) = clockText J hs mo ap)
   \<and> (\<not> (\<exists>pre' hs' mo' ws' ap' rest'. timeParts hs' mo' ws' ap'
            \<and> s = pre' @ timeText hs' mo' ws' ap' @ rest') \<longrightarrow>
      convertTo24h J s = ''00:00'')"
proof -
  have c1: "convertTo24h J (pre @ timeText hs mo ws ap @ rest) = clockText J hs mo ap"
    if a: "timeParts hs mo ws ap"
      and b: "\<forall>p q. pre = p @ q \<and> q \<noteq> [] \<longrightarrow>
             \<not> (\<exists>hs' mo' ws' ap' rest'. timeParts hs' mo' ws' ap'
                   \<and> q @ timeText hs mo ws ap @ rest = timeText hs' mo' ws' ap' @ rest')"
  proof -
    let ?t = "timeText hs mo ws ap @ rest"
    have "\<forall>p q. pre = p @ q \<and> q \<noteq> [] \<longrightarrow> matchTimeAt (q @ ?t) = None"
    proof (intro allI impI)
      fix p q
      assume pq: "pre = p @ q \<and> q \<noteq> []"
      show "matchTimeAt (q @ ?t) = None"
      proof (cases "matchTimeAt (q @ ?t)")
        case None
        then show ?thesis .
      next
        case (Some m)
        obtain hs' mo' ap' where "m = (hs', mo', ap')" by (cases m)
        with Some matchTimeAt_is_timeText [of "q @ ?t" hs' mo' ap']
        have "\<exists>hs' mo' ws' ap' rest'. timeParts hs' mo' ws' ap'
                   \<and> q @ ?t = timeText hs' mo' ws' ap' @ rest'"
          by blast
        with b pq show ?thesis by blast
      qed
    qed
    then have "matchTime (pre @ ?t) = matchTime ?t"
      by (rule matchTime_skip)
    also have "\<dots> = Some (hs, mo, ap)"
      using a by (intro matchTime_at_start matchTimeAt_timeText)
    finally show ?thesis
      using a by (rule convertTo24h_matched)
  qed
  have c2: "convertTo24h J s = ''00:00''"
    if a: "\<not> (\<exists>pre' hs' mo' ws' ap' rest'. timeParts hs' mo' ws' ap'
            \<and> s = pre' @ timeText hs' mo' ws' ap' @ rest')"
  proof (cases "matchTime s")
    case None
    then show ?thesis by (simp add: convertTo24h_def)
  next
    case (Some m)
    obtain hs' mo' ap' where m: "m = (hs', mo', ap')" by (cases m)
    from matchTime_somewhere [OF Some] obtain pre' t
      where s: "s = pre' @ t" and t: "matchTimeAt t = Some (hs', mo', ap')"
      unfolding m by blast
    from matchTimeAt_is_timeText [OF t] s a show ?thesis by blast
  qed
  from c1 c2 show ?thesis by blast
qed

text \<open>
  The examples of the specification, a time in the morning, a time after other text, an
  hour written with leading zeros, and a text without a time.
\<close>

theorem convertTo24h_parses_witness:
  "convertTo24h exampleHost ''1PM'' = ''13:00''
   \<and> convertTo24h exampleHost ''12:00 AM'' = ''00:00''
   \<and> convertTo24h exampleHost ''12:30 PM'' = ''12:30''
   \<and> convertTo24h exampleHost ''9:05 am'' = ''09:05''
   \<and> convertTo24h exampleHost ''at 3pm sharp'' = ''15:00''
   \<and> convertTo24h exampleHost '' 1PM'' = ''13:00''
   \<and> convertTo24h exampleHost ''0000000000000001PM'' = ''13:00''
   \<and> convertTo24h exampleHost ''no time yet'' = ''00:00''"
proof -
  have e: "\<forall>p q. [] = p @ q \<and> q \<noteq> [] \<longrightarrow>
             \<not> (\<exists>hs' mo' ws' ap' rest'. timeParts hs' mo' ws' ap'
                   \<and> q @ t = timeText hs' mo' ws' ap' @ rest')" for t :: string
    by simp
  have h1: "timeParts ''1'' None [] ''PM''"
    by code_simp
  have t1: "[] @ timeText ''1'' None [] ''PM'' @ [] = ''1PM''"
    by code_simp
  have v1: "clockText exampleHost ''1'' None ''PM'' = ''13:00''"
    by code_simp
  from convertTo24h_parses [of "''1''" None "[]" "''PM''" "[]" "[]" exampleHost] h1 e
  have "convertTo24h exampleHost ([] @ timeText ''1'' None [] ''PM'' @ [])
          = clockText exampleHost ''1'' None ''PM''"
    by blast
  then have r1: "convertTo24h exampleHost ''1PM'' = ''13:00''"
    unfolding t1 v1 .
  have h2: "timeParts ''12'' (Some ''00'') '' '' ''AM''"
    by code_simp
  have t2: "[] @ timeText ''12'' (Some ''00'') '' '' ''AM'' @ [] = ''12:00 AM''"
    by code_simp
  have v2: "clockText exampleHost ''12'' (Some ''00'') ''AM'' = ''00:00''"
    by code_simp
  from convertTo24h_parses [of "''12''" "Some ''00''" "'' ''" "''AM''" "[]" "[]" exampleHost]
    h2 e
  have "convertTo24h exampleHost ([] @ timeText ''12'' (Some ''00'') '' '' ''AM'' @ [])
          = clockText exampleHost ''12'' (Some ''00'') ''AM''"
    by blast
  then have r2: "convertTo24h exampleHost ''12:00 AM'' = ''00:00''"
    unfolding t2 v2 .
  have h3: "timeParts ''12'' (Some ''30'') '' '' ''PM''"
    by code_simp
  have t3: "[] @ timeText ''12'' (Some ''30'') '' '' ''PM'' @ [] = ''12:30 PM''"
    by code_simp
  have v3: "clockText exampleHost ''12'' (Some ''30'') ''PM'' = ''12:30''"
    by code_simp
  from convertTo24h_parses [of "''12''" "Some ''30''" "'' ''" "''PM''" "[]" "[]" exampleHost]
    h3 e
  have "convertTo24h exampleHost ([] @ timeText ''12'' (Some ''30'') '' '' ''PM'' @ [])
          = clockText exampleHost ''12'' (Some ''30'') ''PM''"
    by blast
  then have r3: "convertTo24h exampleHost ''12:30 PM'' = ''12:30''"
    unfolding t3 v3 .
  have h4: "timeParts ''9'' (Some ''05'') '' '' ''am''"
    by code_simp
  have t4: "[] @ timeText ''9'' (Some ''05'') '' '' ''am'' @ [] = ''9:05 am''"
    by code_simp
  have v4: "clockText exampleHost ''9'' (Some ''05'') ''am'' = ''09:05''"
    by code_simp
  from convertTo24h_parses [of "''9''" "Some ''05''" "'' ''" "''am''" "[]" "[]" exampleHost]
    h4 e
  have "convertTo24h exampleHost ([] @ timeText ''9'' (Some ''05'') '' '' ''am'' @ [])
          = clockText exampleHost ''9'' (Some ''05'') ''am''"
    by blast
  then have r4: "convertTo24h exampleHost ''9:05 am'' = ''09:05''"
    unfolding t4 v4 .
  have h5: "timeParts ''3'' None [] ''pm''"
    by code_simp
  have n5: "list_all (\<lambda>c. \<not> isDigit c) ''at ''"
    by code_simp
  have t5: "''at '' @ timeText ''3'' None [] ''pm'' @ '' sharp'' = ''at 3pm sharp''"
    by code_simp
  have v5: "clockText exampleHost ''3'' None ''pm'' = ''15:00''"
    by code_simp
  from convertTo24h_parses [of "''3''" None "[]" "''pm''" "''at ''" "'' sharp''" exampleHost]
    h5 no_time_before [OF n5, of "timeText ''3'' None [] ''pm'' @ '' sharp''"]
  have "convertTo24h exampleHost (''at '' @ timeText ''3'' None [] ''pm'' @ '' sharp'')
          = clockText exampleHost ''3'' None ''pm''"
    by blast
  then have r5: "convertTo24h exampleHost ''at 3pm sharp'' = ''15:00''"
    unfolding t5 v5 .
  have n6: "list_all (\<lambda>c. \<not> isDigit c) '' ''"
    by code_simp
  have t6: "'' '' @ timeText ''1'' None [] ''PM'' @ [] = '' 1PM''"
    by code_simp
  from convertTo24h_parses [of "''1''" None "[]" "''PM''" "'' ''" "[]" exampleHost]
    h1 no_time_before [OF n6, of "timeText ''1'' None [] ''PM'' @ []"]
  have "convertTo24h exampleHost ('' '' @ timeText ''1'' None [] ''PM'' @ [])
          = clockText exampleHost ''1'' None ''PM''"
    by blast
  then have r6: "convertTo24h exampleHost '' 1PM'' = ''13:00''"
    unfolding t6 v1 .
  have h7: "timeParts ''0000000000000001'' None [] ''PM''"
    by code_simp
  have t7: "[] @ timeText ''0000000000000001'' None [] ''PM'' @ [] = ''0000000000000001PM''"
    by code_simp
  have v7: "clockText exampleHost ''0000000000000001'' None ''PM'' = ''13:00''"
    by code_simp
  from convertTo24h_parses [of "''0000000000000001''" None "[]" "''PM''" "[]" "[]" exampleHost]
    h7 e
  have "convertTo24h exampleHost ([] @ timeText ''0000000000000001'' None [] ''PM'' @ [])
          = clockText exampleHost ''0000000000000001'' None ''PM''"
    by blast
  then have r7: "convertTo24h exampleHost ''0000000000000001PM'' = ''13:00''"
    unfolding t7 v7 .
  have nd: "list_all (\<lambda>c. \<not> isDigit c) ''no time yet''"
    by code_simp
  from convertTo24h_parses [of _ _ _ _ _ _ exampleHost "''no time yet''"]
    no_time_without_digit [OF nd]
  have r8: "convertTo24h exampleHost ''no time yet'' = ''00:00''"
    by blast
  from r1 r2 r3 r4 r5 r6 r7 r8 show ?thesis
    by blast
qed

end
